theory Spec2Isabelle
  imports Main
begin

text \<open>
  A model of the robo workload orchestrator: the dispatcher with its worker
  registry, heartbeat map and liveness sweep (package \<open>dispatcher\<close>), the worker
  agent's job handler, and the job service with the store it writes to
  (package \<open>service\<close>).  Every function is translated from the Go source;
  what the source takes from its environment (the clock, the random draw, the
  order of a map iteration, the uuid source, the outcome of a \<open>select\<close>) is an
  argument.  The properties follow the definitions.
\<close>

section \<open>JSON documents and the encoding/json calls of the sources\<close>

text \<open>
  Every payload on the bus is JSON.  A payload is modelled by the document it
  holds, not by its bytes: objects keep their members in order, numbers are the
  integers the sources write (Unix seconds).  Bytes that are no JSON document at
  all make \<open>json.Unmarshal\<close> fail exactly as a member of the wrong type does, so
  the failing branch of every decoder below stands for both.
\<close>

datatype json =
    JNull
  | JString string
  | JNumber int
  | JArray "json list"
  | JObject "(string \<times> json) list"

text \<open>
  \<open>json.RawMessage\<close> is a byte slice that is expected to hold one JSON document:
  \<open>RNil\<close> is the nil slice (encoded as \<open>null\<close>), \<open>RDoc v\<close> bytes that hold the
  document \<open>v\<close>, and \<open>RInvalid\<close> bytes that hold none (encoding them fails).
\<close>

datatype RawMessage = RNil | RInvalid | RDoc json

datatype error =
    NoActiveWorkers
  | MarshalError
  | MarshalFailed error
  | DispatchFailed error
  | UnmarshalTypeError
  | ConnectionError
  | RecordNotFound
  | DuplicateKey
  | DatabaseError
  | ContextCanceled
  | NilPointerPanic

definition bindE :: "error + 'a \<Rightarrow> ('a \<Rightarrow> error + 'b) \<Rightarrow> error + 'b" where
  "bindE m f = (case m of Inl e \<Rightarrow> Inl e | Inr x \<Rightarrow> f x)"

text \<open>
  A member is looked up by its key; of two members with one key the later one
  wins.  Keys are compared exactly: the payloads of this repository are all
  written with the keys of the struct tags (\<open>encoding/json\<close> would also take a
  key that differs from the tag in case only).
\<close>

definition lookup_key :: "(string \<times> json) list \<Rightarrow> string \<Rightarrow> json option" where
  "lookup_key kvs k = map_of (rev kvs) k"

text \<open>A missing member and \<open>null\<close> leave a string or integer field at its zero value.\<close>

fun as_string :: "json option \<Rightarrow> error + string" where
  "as_string None = Inr []"
| "as_string (Some JNull) = Inr []"
| "as_string (Some (JString s)) = Inr s"
| "as_string (Some _) = Inl UnmarshalTypeError"

fun as_int64 :: "json option \<Rightarrow> error + int" where
  "as_int64 None = Inr 0"
| "as_int64 (Some JNull) = Inr 0"
| "as_int64 (Some (JNumber n)) =
     (if - (2 ^ 63) \<le> n \<and> n < 2 ^ 63 then Inr n else Inl UnmarshalTypeError)"
| "as_int64 (Some _) = Inl UnmarshalTypeError"

fun as_strings_elems :: "json list \<Rightarrow> error + string list" where
  "as_strings_elems [] = Inr []"
| "as_strings_elems (v # vs) =
     bindE (as_string (Some v)) (\<lambda>s. bindE (as_strings_elems vs) (\<lambda>ss. Inr (s # ss)))"

fun as_strings :: "json option \<Rightarrow> error + string list" where
  "as_strings None = Inr []"
| "as_strings (Some JNull) = Inr []"
| "as_strings (Some (JArray vs)) = as_strings_elems vs"
| "as_strings (Some _) = Inl UnmarshalTypeError"

text \<open>A \<open>RawMessage\<close> field takes the bytes of whatever document the member holds.\<close>

fun as_raw :: "json option \<Rightarrow> RawMessage" where
  "as_raw None = RNil"
| "as_raw (Some v) = RDoc v"

fun Marshal_raw :: "RawMessage \<Rightarrow> error + json" where
  "Marshal_raw RNil = Inr JNull"
| "Marshal_raw RInvalid = Inl MarshalError"
| "Marshal_raw (RDoc v) = Inr v"

section \<open>Data model\<close>

text \<open>\<open>models.Worker\<close>: a uuid and a name, nothing else.\<close>

record Worker =
  Worker_UUID :: string
  Worker_Name :: string

text \<open>\<open>models.Strategy\<close> and \<open>models.Cycle\<close>; the strategy of a cycle is a pointer.\<close>

record Strategy =
  CycleDuration :: int
  MaxUsers :: int
  MaxFiles :: int
  MaxWorkspaces :: int

record Cycle =
  Cycle_UUID :: string
  Cycle_Name :: string
  Cycle_Strategy :: "Strategy option"
  Cycle_StartedAt :: int
  Cycle_DoneAt :: int
  Cycle_Status :: string

definition zero_Worker :: Worker where
  "zero_Worker = \<lparr>Worker_UUID = [], Worker_Name = []\<rparr>"

definition zero_Cycle :: Cycle where
  "zero_Cycle = \<lparr>Cycle_UUID = [], Cycle_Name = [], Cycle_Strategy = None,
     Cycle_StartedAt = 0, Cycle_DoneAt = 0, Cycle_Status = []\<rparr>"

definition Marshal_Worker :: "Worker \<Rightarrow> json" where
  "Marshal_Worker w =
     JObject [(''uuid'', JString (Worker_UUID w)), (''name'', JString (Worker_Name w))]"

definition Marshal_Strategy :: "Strategy \<Rightarrow> json" where
  "Marshal_Strategy st =
     JObject [(''cycle_duration'', JNumber (CycleDuration st)),
              (''max_users'', JNumber (MaxUsers st)),
              (''max_files'', JNumber (MaxFiles st)),
              (''max_workspace'', JNumber (MaxWorkspaces st))]"

definition Marshal_Cycle :: "Cycle \<Rightarrow> json" where
  "Marshal_Cycle c =
     JObject [(''uuid'', JString (Cycle_UUID c)),
              (''name'', JString (Cycle_Name c)),
              (''strategy'', (case Cycle_Strategy c of
                                None \<Rightarrow> JNull
                              | Some st \<Rightarrow> Marshal_Strategy st)),
              (''started_at'', JNumber (Cycle_StartedAt c)),
              (''done_at'', JNumber (Cycle_DoneAt c)),
              (''status'', JString (Cycle_Status c))]"

text \<open>
  A member that holds a struct: a missing member and \<open>null\<close> leave the field at
  its zero value, an object is decoded member by member, anything else is a
  type error.
\<close>

definition as_Worker :: "json option \<Rightarrow> error + Worker" where
  "as_Worker m =
     (case m of
        None \<Rightarrow> Inr zero_Worker
      | Some JNull \<Rightarrow> Inr zero_Worker
      | Some (JObject kvs) \<Rightarrow>
          bindE (as_string (lookup_key kvs ''uuid'')) (\<lambda>uuid.
          bindE (as_string (lookup_key kvs ''name'')) (\<lambda>name.
            Inr \<lparr>Worker_UUID = uuid, Worker_Name = name\<rparr>))
      | Some _ \<Rightarrow> Inl UnmarshalTypeError)"

definition as_Strategy :: "json option \<Rightarrow> error + Strategy option" where
  "as_Strategy m =
     (case m of
        None \<Rightarrow> Inr None
      | Some JNull \<Rightarrow> Inr None
      | Some (JObject kvs) \<Rightarrow>
          bindE (as_int64 (lookup_key kvs ''cycle_duration'')) (\<lambda>dur.
          bindE (as_int64 (lookup_key kvs ''max_users'')) (\<lambda>users.
          bindE (as_int64 (lookup_key kvs ''max_files'')) (\<lambda>files.
          bindE (as_int64 (lookup_key kvs ''max_workspace'')) (\<lambda>spaces.
            Inr (Some \<lparr>CycleDuration = dur, MaxUsers = users, MaxFiles = files,
                        MaxWorkspaces = spaces\<rparr>)))))
      | Some _ \<Rightarrow> Inl UnmarshalTypeError)"

definition as_Cycle :: "json option \<Rightarrow> error + Cycle" where
  "as_Cycle m =
     (case m of
        None \<Rightarrow> Inr zero_Cycle
      | Some JNull \<Rightarrow> Inr zero_Cycle
      | Some (JObject kvs) \<Rightarrow>
          bindE (as_string (lookup_key kvs ''uuid'')) (\<lambda>uuid.
          bindE (as_string (lookup_key kvs ''name'')) (\<lambda>name.
          bindE (as_Strategy (lookup_key kvs ''strategy'')) (\<lambda>strategy.
          bindE (as_int64 (lookup_key kvs ''started_at'')) (\<lambda>started.
          bindE (as_int64 (lookup_key kvs ''done_at'')) (\<lambda>done.
          bindE (as_string (lookup_key kvs ''status'')) (\<lambda>status.
            Inr \<lparr>Cycle_UUID = uuid, Cycle_Name = name, Cycle_Strategy = strategy,
                 Cycle_StartedAt = started, Cycle_DoneAt = done,
                 Cycle_Status = status\<rparr>))))))
      | Some _ \<Rightarrow> Inl UnmarshalTypeError)"

text \<open>
  \<open>models.Job\<close>.  Its last two fields are the gorm associations \<open>Cycle\<close> and
  \<open>Worker\<close>; they carry no json tag, so \<open>encoding/json\<close> writes and reads them
  as the members \<open>Cycle\<close> and \<open>Worker\<close>.
\<close>

record Job =
  Job_UUID :: string
  Job_WorkerID :: string
  Job_Name :: string
  Job_InputData :: RawMessage
  Job_OutputData :: RawMessage
  Job_Error :: string
  Job_StartAt :: int
  Job_DoneAt :: int
  Job_Status :: string
  Job_CycleUUID :: string
  Job_SessionID :: string
  Job_Cycle :: Cycle
  Job_Worker :: Worker

definition Marshal_Job :: "Job \<Rightarrow> error + json" where
  "Marshal_Job j =
     bindE (Marshal_raw (Job_InputData j)) (\<lambda>inp.
     bindE (Marshal_raw (Job_OutputData j)) (\<lambda>out.
       Inr (JObject
         [(''uuid'', JString (Job_UUID j)),
          (''worker_id'', JString (Job_WorkerID j)),
          (''name'', JString (Job_Name j)),
          (''input_data'', inp),
          (''output_data'', out),
          (''error'', JString (Job_Error j)),
          (''start_at'', JNumber (Job_StartAt j)),
          (''done_at'', JNumber (Job_DoneAt j)),
          (''status'', JString (Job_Status j)),
          (''cycle_uuid'', JString (Job_CycleUUID j)),
          (''session_id'', JString (Job_SessionID j)),
          (''Cycle'', Marshal_Cycle (Job_Cycle j)),
          (''Worker'', Marshal_Worker (Job_Worker j))])))"

definition zero_Job :: Job where
  "zero_Job = \<lparr>Job_UUID = [], Job_WorkerID = [], Job_Name = [], Job_InputData = RNil,
     Job_OutputData = RNil, Job_Error = [], Job_StartAt = 0, Job_DoneAt = 0,
     Job_Status = [], Job_CycleUUID = [], Job_SessionID = [],
     Job_Cycle = zero_Cycle, Job_Worker = zero_Worker\<rparr>"

definition Unmarshal_Job :: "json \<Rightarrow> error + Job" where
  "Unmarshal_Job v =
     (case v of
        JNull \<Rightarrow> Inr zero_Job
      | JObject kvs \<Rightarrow>
          bindE (as_string (lookup_key kvs ''uuid'')) (\<lambda>uuid.
          bindE (as_string (lookup_key kvs ''worker_id'')) (\<lambda>wid.
          bindE (as_string (lookup_key kvs ''name'')) (\<lambda>name.
          bindE (as_string (lookup_key kvs ''error'')) (\<lambda>err.
          bindE (as_int64 (lookup_key kvs ''start_at'')) (\<lambda>start.
          bindE (as_int64 (lookup_key kvs ''done_at'')) (\<lambda>done.
          bindE (as_string (lookup_key kvs ''status'')) (\<lambda>status.
          bindE (as_string (lookup_key kvs ''cycle_uuid'')) (\<lambda>cyc.
          bindE (as_string (lookup_key kvs ''session_id'')) (\<lambda>sess.
          bindE (as_Cycle (lookup_key kvs ''Cycle'')) (\<lambda>cycle.
          bindE (as_Worker (lookup_key kvs ''Worker'')) (\<lambda>worker.
            Inr \<lparr>Job_UUID = uuid, Job_WorkerID = wid, Job_Name = name,
                 Job_InputData = as_raw (lookup_key kvs ''input_data''),
                 Job_OutputData = as_raw (lookup_key kvs ''output_data''),
                 Job_Error = err, Job_StartAt = start, Job_DoneAt = done,
                 Job_Status = status, Job_CycleUUID = cyc,
                 Job_SessionID = sess, Job_Cycle = cycle,
                 Job_Worker = worker\<rparr>)))))))))))
      | _ \<Rightarrow> Inl UnmarshalTypeError)"

section \<open>Dispatcher\<close>

text \<open>\<open>WorkerRegistrationMessage\<close>, the one struct all three membership subjects decode into.\<close>

record WorkerRegistrationMessage =
  WorkerID :: string
  Name :: string
  Capabilities :: "string list"
  Status :: string

definition Unmarshal_WorkerRegistrationMessage ::
    "json \<Rightarrow> error + WorkerRegistrationMessage" where
  "Unmarshal_WorkerRegistrationMessage v =
     (case v of
        JNull \<Rightarrow> Inr \<lparr>WorkerID = [], Name = [], Capabilities = [], Status = []\<rparr>
      | JObject kvs \<Rightarrow>
          bindE (as_string (lookup_key kvs ''worker_id'')) (\<lambda>wid.
          bindE (as_string (lookup_key kvs ''name'')) (\<lambda>name.
          bindE (as_strings (lookup_key kvs ''capabilities'')) (\<lambda>caps.
          bindE (as_string (lookup_key kvs ''status'')) (\<lambda>status.
            Inr \<lparr>WorkerID = wid, Name = name, Capabilities = caps, Status = status\<rparr>))))
      | _ \<Rightarrow> Inl UnmarshalTypeError)"

text \<open>
  The NATS connection: every message it accepted, oldest first, and the error
  (if any) with which it presently answers a publish.
\<close>

record Conn =
  conn_err :: "error option"
  published :: "(string \<times> json) list"

definition nc_Publish :: "Conn \<Rightarrow> string \<Rightarrow> json \<Rightarrow> error + Conn" where
  "nc_Publish c subject data =
     (case conn_err c of
        Some e \<Rightarrow> Inl e
      | None \<Rightarrow> Inr (c\<lparr>published := published c @ [(subject, data)]\<rparr>))"

text \<open>
  \<open>dispatcherImpl\<close>.  A \<open>time.Time\<close> is the number of nanoseconds since the epoch,
  a \<open>time.Duration\<close> a number of nanoseconds.
\<close>

record dispatcherImpl =
  nc :: Conn
  workers :: "string \<rightharpoonup> Worker"
  lastHeartbeat :: "string \<rightharpoonup> int"

definition Second :: int where
  "Second = 1000000000"

definition NewDispatcher :: "Conn \<Rightarrow> dispatcherImpl" where
  "NewDispatcher c = \<lparr>nc = c, workers = Map.empty, lastHeartbeat = Map.empty\<rparr>"

definition Publish :: "dispatcherImpl \<Rightarrow> string \<Rightarrow> json \<Rightarrow> error + dispatcherImpl" where
  "Publish d subject data =
     (case nc_Publish (nc d) subject data of
        Inl e \<Rightarrow> Inl e
      | Inr c \<Rightarrow> Inr (d\<lparr>nc := c\<rparr>))"

text \<open>
  \<open>GetActiveWorkers\<close> ranges over the registry map.  Go fixes no order for that;
  \<open>order\<close> is the order in which the keys are visited this time.
\<close>

definition GetActiveWorkers :: "string list \<Rightarrow> dispatcherImpl \<Rightarrow> Worker list" where
  "GetActiveWorkers order d = List.map_filter (workers d) order"

text \<open>
  \<open>DispatchJob\<close> writes through the \<open>*models.Job\<close> it is given, so the job comes
  back with the result.  \<open>r\<close> is the value \<open>rand.Intn\<close> returns.
\<close>

definition DispatchJob ::
    "string list \<Rightarrow> nat \<Rightarrow> dispatcherImpl \<Rightarrow> Job \<Rightarrow> error option \<times> Job \<times> dispatcherImpl" where
  "DispatchJob order r d job =
     (let ws = GetActiveWorkers order d in
      if length ws = 0 then (Some NoActiveWorkers, job, d)
      else
        let worker = ws ! r;
            job' = job\<lparr>Job_WorkerID := Worker_UUID worker\<rparr>
        in case Marshal_Job job' of
             Inl e \<Rightarrow> (Some (MarshalFailed e), job', d)
           | Inr data \<Rightarrow>
               (case Publish d (''dispatcher.job.'' @ Worker_UUID worker) data of
                  Inl e \<Rightarrow> (Some (DispatchFailed e), job', d)
                | Inr d' \<Rightarrow> (None, job', d')))"

subsection \<open>Membership handlers\<close>

text \<open>
  Each handler is a loop over its subscription channel.  One iteration decodes
  the payload, drops it when decoding fails or the status is not the one the
  subject expects, and otherwise runs two critical sections, the first under
  \<open>workerMu\<close> and the second under \<open>heartbeatMu\<close>; the first lock is released
  before the second is taken.  \<open>now\<close> is what \<open>time.Now()\<close> returns inside the
  second section.
\<close>

definition reg_workers_section :: "WorkerRegistrationMessage \<Rightarrow> dispatcherImpl \<Rightarrow> dispatcherImpl" where
  "reg_workers_section regMsg d =
     (let worker = \<lparr>Worker_UUID = WorkerID regMsg, Worker_Name = Name regMsg\<rparr>
      in d\<lparr>workers := (workers d)(WorkerID regMsg \<mapsto> worker)\<rparr>)"

definition reg_heartbeat_section ::
    "int \<Rightarrow> WorkerRegistrationMessage \<Rightarrow> dispatcherImpl \<Rightarrow> dispatcherImpl" where
  "reg_heartbeat_section now regMsg d =
     d\<lparr>lastHeartbeat := (lastHeartbeat d)(WorkerID regMsg \<mapsto> now)\<rparr>"

definition handleRegistrations_msg :: "int \<Rightarrow> json \<Rightarrow> dispatcherImpl \<Rightarrow> dispatcherImpl" where
  "handleRegistrations_msg now data d =
     (case Unmarshal_WorkerRegistrationMessage data of
        Inl e \<Rightarrow> d
      | Inr regMsg \<Rightarrow>
          if Status regMsg \<noteq> ''registered'' then d
          else reg_heartbeat_section now regMsg (reg_workers_section regMsg d))"

definition handleRegistrations :: "(int \<times> json) list \<Rightarrow> dispatcherImpl \<Rightarrow> dispatcherImpl" where
  "handleRegistrations regCh d = fold (\<lambda>(now, data). handleRegistrations_msg now data) regCh d"

definition handleHeartbeats_msg :: "int \<Rightarrow> json \<Rightarrow> dispatcherImpl \<Rightarrow> dispatcherImpl" where
  "handleHeartbeats_msg now data d =
     (case Unmarshal_WorkerRegistrationMessage data of
        Inl e \<Rightarrow> d
      | Inr hbMsg \<Rightarrow>
          if Status hbMsg \<noteq> ''heartbeat'' then d
          else d\<lparr>lastHeartbeat := (lastHeartbeat d)(WorkerID hbMsg \<mapsto> now)\<rparr>)"

definition handleHeartbeats :: "(int \<times> json) list \<Rightarrow> dispatcherImpl \<Rightarrow> dispatcherImpl" where
  "handleHeartbeats hbCh d = fold (\<lambda>(now, data). handleHeartbeats_msg now data) hbCh d"

definition dereg_workers_section :: "WorkerRegistrationMessage \<Rightarrow> dispatcherImpl \<Rightarrow> dispatcherImpl" where
  "dereg_workers_section derMsg d = d\<lparr>workers := (workers d)(WorkerID derMsg := None)\<rparr>"

definition dereg_heartbeat_section ::
    "WorkerRegistrationMessage \<Rightarrow> dispatcherImpl \<Rightarrow> dispatcherImpl" where
  "dereg_heartbeat_section derMsg d =
     d\<lparr>lastHeartbeat := (lastHeartbeat d)(WorkerID derMsg := None)\<rparr>"

definition handleDeregistrations_msg :: "json \<Rightarrow> dispatcherImpl \<Rightarrow> dispatcherImpl" where
  "handleDeregistrations_msg data d =
     (case Unmarshal_WorkerRegistrationMessage data of
        Inl e \<Rightarrow> d
      | Inr derMsg \<Rightarrow>
          if Status derMsg \<noteq> ''deregistered'' then d
          else dereg_heartbeat_section derMsg (dereg_workers_section derMsg d))"

definition handleDeregistrations :: "json list \<Rightarrow> dispatcherImpl \<Rightarrow> dispatcherImpl" where
  "handleDeregistrations derCh d = fold handleDeregistrations_msg derCh d"

subsection \<open>Liveness sweep\<close>

text \<open>
  One tick of \<open>cleanupInactiveWorkers\<close>: with \<open>heartbeatMu\<close> held throughout, the
  loop ranges over \<open>lastHeartbeat\<close> (\<open>order\<close> is the order of the visit) and
  deletes a stale key from both maps.  A key deleted before the loop reaches it
  is not visited.  \<open>now.Sub(lastHB)\<close> saturates only beyond 292 years, far from
  the threshold, so it is the plain difference here.
\<close>

definition cleanup_entry :: "int \<Rightarrow> string \<Rightarrow> dispatcherImpl \<Rightarrow> dispatcherImpl" where
  "cleanup_entry now workerID d =
     (case lastHeartbeat d workerID of
        None \<Rightarrow> d
      | Some lastHB \<Rightarrow>
          if now - lastHB > 15 * Second
          then d\<lparr>workers := (workers d)(workerID := None),
                 lastHeartbeat := (lastHeartbeat d)(workerID := None)\<rparr>
          else d)"

definition cleanup_tick :: "string list \<Rightarrow> int \<Rightarrow> dispatcherImpl \<Rightarrow> dispatcherImpl" where
  "cleanup_tick order now d = fold (cleanup_entry now) order d"

text \<open>The ticker of the sweeper fires every 10 s.\<close>

definition cleanup_period :: int where
  "cleanup_period = 10 * Second"

text \<open>
  What the dispatcher's background goroutines do, one loop iteration at a time.
  A run in which every iteration completes before the next one starts is a list
  of such events, executed from the state \<open>NewDispatcher\<close> builds.
\<close>

datatype event =
    Register int json
  | Heartbeat int json
  | Deregister json
  | Sweep "string list" int

fun step :: "event \<Rightarrow> dispatcherImpl \<Rightarrow> dispatcherImpl" where
  "step (Register now data) d = handleRegistrations_msg now data d"
| "step (Heartbeat now data) d = handleHeartbeats_msg now data d"
| "step (Deregister data) d = handleDeregistrations_msg data d"
| "step (Sweep order now) d = cleanup_tick order now d"

definition run :: "event list \<Rightarrow> dispatcherImpl \<Rightarrow> dispatcherImpl" where
  "run evs d = fold step evs d"

subsection \<open>Concrete dispatcher states and payloads\<close>

definition conn0 :: Conn where
  "conn0 = \<lparr>conn_err = None, published = []\<rparr>"

definition worker_w1 :: Worker where
  "worker_w1 = \<lparr>Worker_UUID = ''w1'', Worker_Name = ''W''\<rparr>"

definition dispatcher_w1 :: dispatcherImpl where
  "dispatcher_w1 =
     \<lparr>nc = conn0, workers = [''w1'' \<mapsto> worker_w1], lastHeartbeat = [''w1'' \<mapsto> 0]\<rparr>"

definition dispatcher_closed :: dispatcherImpl where
  "dispatcher_closed =
     dispatcher_w1\<lparr>nc := \<lparr>conn_err = Some ConnectionError, published = []\<rparr>\<rparr>"

definition job_j1 :: Job where
  "job_j1 = zero_Job\<lparr>Job_UUID := ''j1'', Job_Name := ''upload_file'',
     Job_InputData := RDoc (JObject [(''a'', JNumber 1)]), Job_Status := ''pending''\<rparr>"

definition register_w1 :: json where
  "register_w1 = JObject [(''worker_id'', JString ''w1''), (''name'', JString ''W''),
     (''capabilities'', JArray [JString ''x'']), (''status'', JString ''registered'')]"

definition deregister_w1 :: json where
  "deregister_w1 =
     JObject [(''worker_id'', JString ''w1''), (''status'', JString ''deregistered'')]"

definition heartbeat_ghost :: json where
  "heartbeat_ghost =
     JObject [(''worker_id'', JString ''ghost''), (''status'', JString ''heartbeat'')]"

definition heartbeat_w1 :: json where
  "heartbeat_w1 =
     JObject [(''worker_id'', JString ''w1''), (''status'', JString ''heartbeat'')]"

definition register_w1_bare :: json where
  "register_w1_bare = JObject [(''worker_id'', JString ''w1''), (''name'', JString ''W''),
     (''capabilities'', JArray []), (''status'', JString ''registered'')]"

definition regMsg_w1 :: WorkerRegistrationMessage where
  "regMsg_w1 = \<lparr>WorkerID = ''w1'', Name = ''W'', Capabilities = [''x''], Status = ''registered''\<rparr>"

definition derMsg_w1 :: WorkerRegistrationMessage where
  "derMsg_w1 = \<lparr>WorkerID = ''w1'', Name = [], Capabilities = [], Status = ''deregistered''\<rparr>"

text \<open>
  One interleaving of the critical sections of two handler goroutines, started
  from the state \<open>NewDispatcher\<close> builds, while a deregistration and a
  registration of \<open>w1\<close> are both in flight: the deregistration handler runs its
  \<open>workerMu\<close> section, the registration handler runs both of its sections, and
  then the deregistration handler runs its \<open>heartbeatMu\<close> section.  Afterwards
  both handlers are back at their channel reads.
\<close>

definition interleaved_w1 :: "int \<Rightarrow> dispatcherImpl" where
  "interleaved_w1 now =
     dereg_heartbeat_section derMsg_w1
       (reg_heartbeat_section now regMsg_w1
         (reg_workers_section regMsg_w1
           (dereg_workers_section derMsg_w1 (NewDispatcher conn0))))"

text \<open>The registry holds no key that the heartbeat map lacks.\<close>

definition registry_inv :: "dispatcherImpl \<Rightarrow> bool" where
  "registry_inv d = (dom (workers d) \<subseteq> dom (lastHeartbeat d))"

text \<open>
  \<open>refresh_time w ev\<close> is the clock reading that the event \<open>ev\<close> writes into
  \<open>lastHeartbeat[w]\<close>, if it writes one; \<open>registers w ev\<close> says that \<open>ev\<close> puts \<open>w\<close>
  into the registry.
\<close>

definition accepted :: "string \<Rightarrow> string \<Rightarrow> json \<Rightarrow> bool" where
  "accepted status w data =
     (case Unmarshal_WorkerRegistrationMessage data of
        Inl e \<Rightarrow> False
      | Inr m \<Rightarrow> Status m = status \<and> WorkerID m = w)"

fun refresh_time :: "string \<Rightarrow> event \<Rightarrow> int option" where
  "refresh_time w (Register now data) =
     (if accepted ''registered'' w data then Some now else None)"
| "refresh_time w (Heartbeat now data) =
     (if accepted ''heartbeat'' w data then Some now else None)"
| "refresh_time w (Deregister data) = None"
| "refresh_time w (Sweep order now) = None"

fun registers :: "string \<Rightarrow> event \<Rightarrow> bool" where
  "registers w (Register now data) = accepted ''registered'' w data"
| "registers w _ = False"

text \<open>Every registry entry is stored under the uuid it carries.\<close>

definition keyed_by_uuid :: "dispatcherImpl \<Rightarrow> bool" where
  "keyed_by_uuid d = (\<forall>k x. workers d k = Some x \<longrightarrow> Worker_UUID x = k)"


section \<open>Worker agent\<close>

text \<open>
  The worker program declares a \<open>Job\<close> struct of its own (``same as
  dispatcher'', its comment says).  It has nine fields: \<open>cycle_uuid\<close> and
  \<open>session_id\<close> are not among them.
\<close>

record WJob =
  WJob_UUID :: string
  WJob_WorkerID :: string
  WJob_Name :: string
  WJob_InputData :: RawMessage
  WJob_OutputData :: RawMessage
  WJob_Error :: string
  WJob_StartAt :: int
  WJob_DoneAt :: int
  WJob_Status :: string

text \<open>Members of the payload that the struct has no field for are skipped.\<close>

definition Unmarshal_WJob :: "json \<Rightarrow> error + WJob" where
  "Unmarshal_WJob v =
     (case v of
        JNull \<Rightarrow> Inr \<lparr>WJob_UUID = [], WJob_WorkerID = [], WJob_Name = [],
                      WJob_InputData = RNil, WJob_OutputData = RNil, WJob_Error = [],
                      WJob_StartAt = 0, WJob_DoneAt = 0, WJob_Status = []\<rparr>
      | JObject kvs \<Rightarrow>
          bindE (as_string (lookup_key kvs ''uuid'')) (\<lambda>uuid.
          bindE (as_string (lookup_key kvs ''worker_id'')) (\<lambda>wid.
          bindE (as_string (lookup_key kvs ''name'')) (\<lambda>name.
          bindE (as_string (lookup_key kvs ''error'')) (\<lambda>err.
          bindE (as_int64 (lookup_key kvs ''start_at'')) (\<lambda>start.
          bindE (as_int64 (lookup_key kvs ''done_at'')) (\<lambda>done.
          bindE (as_string (lookup_key kvs ''status'')) (\<lambda>status.
            Inr \<lparr>WJob_UUID = uuid, WJob_WorkerID = wid, WJob_Name = name,
                 WJob_InputData = as_raw (lookup_key kvs ''input_data''),
                 WJob_OutputData = as_raw (lookup_key kvs ''output_data''),
                 WJob_Error = err, WJob_StartAt = start, WJob_DoneAt = done,
                 WJob_Status = status\<rparr>)))))))
      | _ \<Rightarrow> Inl UnmarshalTypeError)"

definition Marshal_WJob :: "WJob \<Rightarrow> error + json" where
  "Marshal_WJob j =
     bindE (Marshal_raw (WJob_InputData j)) (\<lambda>inp.
     bindE (Marshal_raw (WJob_OutputData j)) (\<lambda>out.
       Inr (JObject
         [(''uuid'', JString (WJob_UUID j)),
          (''worker_id'', JString (WJob_WorkerID j)),
          (''name'', JString (WJob_Name j)),
          (''input_data'', inp),
          (''output_data'', out),
          (''error'', JString (WJob_Error j)),
          (''start_at'', JNumber (WJob_StartAt j)),
          (''done_at'', JNumber (WJob_DoneAt j)),
          (''status'', JString (WJob_Status j))])))"

text \<open>The placeholder result the worker writes into every job.\<close>

definition processed :: json where
  "processed = JObject [(''result'', JString ''processed'')]"

text \<open>
  One iteration of \<open>handleJobs\<close> on the worker's connection; \<open>now1\<close> and \<open>now2\<close>
  are the two readings of \<open>time.Now().Unix()\<close>.
\<close>

definition handleJobs_msg :: "int \<Rightarrow> int \<Rightarrow> json \<Rightarrow> Conn \<Rightarrow> Conn" where
  "handleJobs_msg now1 now2 data c =
     (case Unmarshal_WJob data of
        Inl e \<Rightarrow> c
      | Inr job \<Rightarrow>
          let job1 = job\<lparr>WJob_StartAt := now1\<rparr>;
              job2 = job1\<lparr>WJob_Status := ''processing''\<rparr>;
              job3 = job2\<lparr>WJob_OutputData := RDoc processed\<rparr>;
              job4 = job3\<lparr>WJob_Status := ''completed''\<rparr>;
              job5 = job4\<lparr>WJob_DoneAt := now2\<rparr>
          in case Marshal_WJob job5 of
               Inl e \<Rightarrow> c
             | Inr resultData \<Rightarrow>
                 (case nc_Publish c ''dispatcher.job.result'' resultData of
                    Inl e \<Rightarrow> c
                  | Inr c' \<Rightarrow> c'))"

definition handleJobs :: "(int \<times> int \<times> json) list \<Rightarrow> Conn \<Rightarrow> Conn" where
  "handleJobs jobCh c = fold (\<lambda>(now1, now2, data). handleJobs_msg now1 now2 data) jobCh c"

text \<open>A job of cycle \<open>c1\<close> and session \<open>alice\<close>, as \<open>DispatchJob\<close> stamps it for \<open>w1\<close>.\<close>

definition job_c1 :: Job where
  "job_c1 = job_j1\<lparr>Job_WorkerID := ''w1'', Job_CycleUUID := ''c1'', Job_SessionID := ''alice''\<rparr>"

section \<open>Cycles, users and the store\<close>

text \<open>\<open>models.Session\<close> and \<open>models.User\<close>.\<close>

record Session =
  UserID :: string

record User =
  User_UUID :: string
  User_DisplayName :: string
  User_UserName :: string
  User_Language :: string
  User_CycleID :: string
  User_SessionID :: string

text \<open>
  The store behind the \<open>Store\<close> interface (\<open>GORMStore\<close>), as far as the job
  service uses it: the rows of the job, cycle and worker tables in insertion
  order, each table keyed by \<open>uuid\<close>, and the error (if any) with which the
  database presently answers every statement.  \<open>Create\<close> inserts and fails on a
  key that exists; \<open>Save\<close> is \<open>Create\<close> when the key is the zero value, and
  otherwise overwrites the row of the key or inserts it; \<open>First\<close> fails when no
  row has the key.
\<close>

record Store =
  db_err :: "error option"
  jobs :: "Job list"
  cycles :: "Cycle list"
  worker_rows :: "Worker list"

fun save_job :: "Job \<Rightarrow> Job list \<Rightarrow> Job list" where
  "save_job j [] = [j]"
| "save_job j (r # rs) = (if Job_UUID r = Job_UUID j then j # rs else r # save_job j rs)"

fun save_cycle :: "Cycle \<Rightarrow> Cycle list \<Rightarrow> Cycle list" where
  "save_cycle c [] = [c]"
| "save_cycle c (r # rs) = (if Cycle_UUID r = Cycle_UUID c then c # rs else r # save_cycle c rs)"

text \<open>
  \<open>Create\<close> and \<open>Save\<close> of a job first save its two associations, \<open>Cycle\<close> and
  then \<open>Worker\<close>: an association that is not the zero value is inserted into
  its table unless a row with its key exists already, and its key is written
  into the job's foreign key (\<open>cycle_uuid\<close>, \<open>worker_id\<close>), in the caller's
  struct too.  The job row itself holds the columns only.
\<close>

definition insert_cycle :: "Cycle \<Rightarrow> Cycle list \<Rightarrow> Cycle list" where
  "insert_cycle c rs = (if Cycle_UUID c \<in> set (map Cycle_UUID rs) then rs else rs @ [c])"

definition insert_worker :: "Worker \<Rightarrow> Worker list \<Rightarrow> Worker list" where
  "insert_worker w rs = (if Worker_UUID w \<in> set (map Worker_UUID rs) then rs else rs @ [w])"

definition save_associations :: "Store \<Rightarrow> Job \<Rightarrow> Store \<times> Job" where
  "save_associations s job =
     (let (s1, job1) =
            (if Job_Cycle job = zero_Cycle then (s, job)
             else (s\<lparr>cycles := insert_cycle (Job_Cycle job) (cycles s)\<rparr>,
                   job\<lparr>Job_CycleUUID := Cycle_UUID (Job_Cycle job)\<rparr>))
      in if Job_Worker job1 = zero_Worker then (s1, job1)
         else (s1\<lparr>worker_rows := insert_worker (Job_Worker job1) (worker_rows s1)\<rparr>,
               job1\<lparr>Job_WorkerID := Worker_UUID (Job_Worker job1)\<rparr>))"

definition job_row :: "Job \<Rightarrow> Job" where
  "job_row job = job\<lparr>Job_Cycle := zero_Cycle, Job_Worker := zero_Worker\<rparr>"

text \<open>
  Both calls take a \<open>*models.Job\<close>; on success the job comes back as the call
  left it.  A failed statement leaves the store as it was (the association
  inserts are in the same transaction).
\<close>

definition CreateJob :: "Store \<Rightarrow> Job \<Rightarrow> error + Store \<times> Job" where
  "CreateJob s job =
     (case db_err s of
        Some e \<Rightarrow> Inl e
      | None \<Rightarrow>
          let (s1, job1) = save_associations s job
          in if Job_UUID job1 \<in> set (map Job_UUID (jobs s1)) then Inl DuplicateKey
             else Inr (s1\<lparr>jobs := jobs s1 @ [job_row job1]\<rparr>, job1))"

definition UpdateJob :: "Store \<Rightarrow> Job \<Rightarrow> error + Store \<times> Job" where
  "UpdateJob s job =
     (if Job_UUID job = [] then CreateJob s job
      else case db_err s of
             Some e \<Rightarrow> Inl e
           | None \<Rightarrow>
               let (s1, job1) = save_associations s job
               in Inr (s1\<lparr>jobs := save_job (job_row job1) (jobs s1)\<rparr>, job1))"

definition GetJobsByStatus :: "Store \<Rightarrow> string \<Rightarrow> error + Job list" where
  "GetJobsByStatus s status =
     (case db_err s of
        Some e \<Rightarrow> Inl e
      | None \<Rightarrow> Inr (filter (\<lambda>j. Job_Status j = status) (jobs s)))"

definition CreateCycle :: "Store \<Rightarrow> Cycle \<Rightarrow> error + Store" where
  "CreateCycle s cycle =
     (case db_err s of
        Some e \<Rightarrow> Inl e
      | None \<Rightarrow>
          if Cycle_UUID cycle \<in> set (map Cycle_UUID (cycles s)) then Inl DuplicateKey
          else Inr (s\<lparr>cycles := cycles s @ [cycle]\<rparr>))"

definition GetCycle :: "Store \<Rightarrow> string \<Rightarrow> error + Cycle" where
  "GetCycle s uuid =
     (case db_err s of
        Some e \<Rightarrow> Inl e
      | None \<Rightarrow>
          (case find (\<lambda>c. Cycle_UUID c = uuid) (cycles s) of
             None \<Rightarrow> Inl RecordNotFound
           | Some c \<Rightarrow> Inr c))"

definition UpdateCycle :: "Store \<Rightarrow> Cycle \<Rightarrow> error + Store" where
  "UpdateCycle s cycle =
     (if Cycle_UUID cycle = [] then CreateCycle s cycle
      else case db_err s of
             Some e \<Rightarrow> Inl e
           | None \<Rightarrow> Inr (s\<lparr>cycles := save_cycle cycle (cycles s)\<rparr>))"

definition empty_store :: Store where
  "empty_store = \<lparr>db_err = None, jobs = [], cycles = [], worker_rows = []\<rparr>"

section \<open>Job service\<close>

text \<open>Go's \<open>int\<close> is 64 bits wide here; \<open>+\<close> wraps.\<close>

definition int_add :: "int \<Rightarrow> int \<Rightarrow> int" where
  "int_add a b = signed_take_bit 63 (a + b)"

definition actions :: "string list" where
  "actions = [''create_user'', ''update_user'', ''delete_user'',
              ''create_workspace'', ''update_workspace'', ''delete_workspace'',
              ''upload_file'', ''download_file'', ''consult_file'']"

text \<open>
  \<open>json.Marshal\<close> of the \<open>map[string]string\<close> with the keys \<open>user_id\<close> and
  \<open>action\<close>; map keys are written in sorted order.  It cannot fail, yet the
  caller has a branch for its error.
\<close>

definition Marshal_inputData :: "string \<Rightarrow> string \<Rightarrow> error + json" where
  "Marshal_inputData user_id action =
     Inr (JObject [(''action'', JString action), (''user_id'', JString user_id)])"

text \<open>
  \<open>uuid.New()\<close> is the next value of a source \<open>ids\<close>; a counter says how many
  values have been drawn.  The loop of \<open>generateSessionJobs\<close> over
  \<open>i = 0 ..< totalJobs\<close>:
\<close>

fun generate_loop ::
    "(nat \<Rightarrow> string) \<Rightarrow> Session \<Rightarrow> nat list \<Rightarrow> Job list \<times> nat \<Rightarrow> Job list \<times> nat" where
  "generate_loop ids session [] (js, k) = (js, k)"
| "generate_loop ids session (i # is) (js, k) =
     (let action = actions ! (i mod length actions)
      in case Marshal_inputData (UserID session) action of
           Inl e \<Rightarrow> generate_loop ids session is (js, k)
         | Inr inputJSON \<Rightarrow>
             let job = zero_Job\<lparr>Job_UUID := ids k, Job_Name := action,
                         Job_InputData := RDoc inputJSON, Job_Status := ''pending''\<rparr>
             in generate_loop ids session is (js @ [job], Suc k))"

text \<open>
  \<open>generateSessionJobs\<close> returns the jobs and a nil error; dereferencing a nil
  \<open>cycle.Strategy\<close> panics (\<open>Inl\<close>).
\<close>

definition generateSessionJobs ::
    "(nat \<Rightarrow> string) \<Rightarrow> nat \<Rightarrow> Cycle \<Rightarrow> Session \<Rightarrow> error + (Job list \<times> error option \<times> nat)" where
  "generateSessionJobs ids k cycle session =
     (case Cycle_Strategy cycle of
        None \<Rightarrow> Inl NilPointerPanic
      | Some st \<Rightarrow>
          let totalJobs = int_add (MaxFiles st) (MaxWorkspaces st);
              (js, k') = generate_loop ids session [0..<nat totalJobs] ([], k)
          in Inr (js, None, k'))"

text \<open>The outcome of one \<open>select\<close> on the generator's user channel and \<open>ctx.Done()\<close>.\<close>

datatype 'a recv = Received 'a | Closed | Done

text \<open>
  The loop that fetches users: a closed channel ends the \<open>select\<close> only (the
  \<open>break\<close> is inside it), a cancelled context returns \<open>ctx.Err()\<close>.
\<close>

fun fetch_users :: "User recv list \<Rightarrow> User list \<Rightarrow> error + User list" where
  "fetch_users [] users = Inr users"
| "fetch_users (Received user # rs) users = fetch_users rs (users @ [user])"
| "fetch_users (Closed # rs) users = fetch_users rs users"
| "fetch_users (Done # rs) users = Inl ContextCanceled"

text \<open>The loop that saves the jobs of one session; a job that fails to save is skipped.\<close>

fun save_jobs :: "Cycle \<Rightarrow> Session \<Rightarrow> Job list \<Rightarrow> Store \<Rightarrow> Store" where
  "save_jobs cycle session [] s = s"
| "save_jobs cycle session (job # js) s =
     (let job' = job\<lparr>Job_CycleUUID := Cycle_UUID cycle, Job_SessionID := UserID session\<rparr>
      in case CreateJob s job' of
           Inl e \<Rightarrow> save_jobs cycle session js s
         | Inr (s', job'') \<Rightarrow> save_jobs cycle session js s')"

text \<open>The loop over the fetched users.\<close>

fun sessions_loop ::
    "(nat \<Rightarrow> string) \<Rightarrow> Cycle \<Rightarrow> User list \<Rightarrow> Store \<times> nat \<Rightarrow> error option \<times> Store \<times> nat" where
  "sessions_loop ids cycle [] (s, k) = (None, s, k)"
| "sessions_loop ids cycle (user # users) (s, k) =
     (let session = \<lparr>UserID = User_UserName user\<rparr>
      in case generateSessionJobs ids k cycle session of
           Inl e \<Rightarrow> (Some e, s, k)
         | Inr (js, err, k') \<Rightarrow>
             (case err of
                Some e \<Rightarrow> sessions_loop ids cycle users (s, k')
              | None \<Rightarrow> sessions_loop ids cycle users (save_jobs cycle session js s, k')))"

text \<open>
  \<open>StartCycle\<close>: \<open>k\<close> values of the uuid source have been drawn before the call,
  \<open>now\<close> is \<open>time.Now().Unix()\<close>, \<open>selects i\<close> the outcome of the \<open>select\<close> of loop
  iteration \<open>i\<close>.  The result is the error returned (a panic included), the
  store, and the number of uuids drawn so far.
\<close>

definition StartCycle ::
    "(nat \<Rightarrow> string) \<Rightarrow> nat \<Rightarrow> int \<Rightarrow> (nat \<Rightarrow> User recv) \<Rightarrow> Store \<Rightarrow> Cycle
       \<Rightarrow> error option \<times> Store \<times> nat" where
  "StartCycle ids k now selects s cycle =
     (let cycle1 = cycle\<lparr>Cycle_UUID := ids k, Cycle_StartedAt := now,
                     Cycle_Status := ''running''\<rparr>
      in case CreateCycle s cycle1 of
           Inl e \<Rightarrow> (Some e, s, Suc k)
         | Inr s1 \<Rightarrow>
             (case Cycle_Strategy cycle1 of
                None \<Rightarrow> (Some NilPointerPanic, s1, Suc k)
              | Some st \<Rightarrow>
                  (case fetch_users (map selects [0..<nat (MaxUsers st)]) [] of
                     Inl e \<Rightarrow> (Some e, s1, Suc k)
                   | Inr users \<Rightarrow> sessions_loop ids cycle1 users (s1, Suc k))))"

definition checkCycleCompletion :: "int \<Rightarrow> string \<Rightarrow> Store \<Rightarrow> error option \<times> Store" where
  "checkCycleCompletion now cycleUUID s =
     (case GetJobsByStatus s ''pending'' of
        Inl e \<Rightarrow> (Some e, s)
      | Inr pendingJobs \<Rightarrow>
          (case GetJobsByStatus s ''dispatched'' of
             Inl e \<Rightarrow> (Some e, s)
           | Inr dispatchedJobs \<Rightarrow>
               if length pendingJobs + length dispatchedJobs = 0 then
                 (case GetCycle s cycleUUID of
                    Inl e \<Rightarrow> (Some e, s)
                  | Inr cycle \<Rightarrow>
                      let cycle' = cycle\<lparr>Cycle_Status := ''completed'', Cycle_DoneAt := now\<rparr>
                      in case UpdateCycle s cycle' of
                           Inl e \<Rightarrow> (Some e, s)
                         | Inr s' \<Rightarrow> (None, s'))
               else (None, s)))"

text \<open>
  The body of the result consumer of \<open>ProcessJobs\<close> for one payload on
  \<open>dispatcher.job.result\<close>; every error is logged and dropped.  The cycle
  checked is the one the job names after \<open>UpdateJob\<close> returned.
\<close>

definition handle_result :: "int \<Rightarrow> json \<Rightarrow> Store \<Rightarrow> Store" where
  "handle_result now data s =
     (case Unmarshal_Job data of
        Inl e \<Rightarrow> s
      | Inr job \<Rightarrow>
          (case UpdateJob s job of
             Inl e \<Rightarrow> s
           | Inr (s', job') \<Rightarrow> snd (checkCycleCompletion now (Job_CycleUUID job') s')))"

text \<open>The job that \<open>StartCycle\<close> persists for step \<open>i\<close> of the session of \<open>user_id\<close>.\<close>

definition session_job :: "string \<Rightarrow> string \<Rightarrow> string \<Rightarrow> nat \<Rightarrow> Job" where
  "session_job uuid cycle_uuid user_id i =
     \<lparr>Job_UUID = uuid, Job_WorkerID = [], Job_Name = actions ! (i mod 9),
      Job_InputData = RDoc (JObject [(''action'', JString (actions ! (i mod 9))),
                                     (''user_id'', JString user_id)]),
      Job_OutputData = RNil, Job_Error = [], Job_StartAt = 0, Job_DoneAt = 0,
      Job_Status = ''pending'', Job_CycleUUID = cycle_uuid, Job_SessionID = user_id,
      Job_Cycle = zero_Cycle, Job_Worker = zero_Worker\<rparr>"

text \<open>
  What the spec says a cycle produces: for each user in turn, \<open>t\<close> jobs, the
  uuids taken from the source in order, starting at its \<open>k\<close>-th value.
\<close>

fun expected_jobs :: "(nat \<Rightarrow> string) \<Rightarrow> string \<Rightarrow> nat \<Rightarrow> User list \<Rightarrow> nat \<Rightarrow> Job list" where
  "expected_jobs ids cycle_uuid t [] k = []"
| "expected_jobs ids cycle_uuid t (user # users) k =
     map (\<lambda>i. session_job (ids (k + i)) cycle_uuid (User_UserName user) i) [0..<t]
     @ expected_jobs ids cycle_uuid t users (k + t)"

text \<open>A uuid source that never repeats, a user, and a cycle template.\<close>

definition ids0 :: "nat \<Rightarrow> string" where
  "ids0 n = replicate (Suc n) CHR ''u''"

definition user_alice :: User where
  "user_alice = \<lparr>User_UUID = ''u-a'', User_DisplayName = ''Alice'', User_UserName = ''alice'',
     User_Language = ''en'', User_CycleID = [], User_SessionID = []\<rparr>"

definition strategy_1_1_1 :: Strategy where
  "strategy_1_1_1 = \<lparr>CycleDuration = 3600, MaxUsers = 1, MaxFiles = 1, MaxWorkspaces = 1\<rparr>"

definition template :: Cycle where
  "template = \<lparr>Cycle_UUID = [], Cycle_Name = ''c'', Cycle_Strategy = Some strategy_1_1_1,
     Cycle_StartedAt = 0, Cycle_DoneAt = 0, Cycle_Status = []\<rparr>"

text \<open>
  A cycle of one user and one job: the template, the cycle row and the store
  that \<open>StartCycle\<close> leaves, a result payload that reports the job of that
  cycle as being processed, and a result payload whose \<open>Cycle\<close> member holds a
  cycle row.
\<close>

definition template_one :: Cycle where
  "template_one = template\<lparr>Cycle_Strategy :=
     Some \<lparr>CycleDuration = 3600, MaxUsers = 1, MaxFiles = 1, MaxWorkspaces = 0\<rparr>\<rparr>"

definition cycle_one :: Cycle where
  "cycle_one = template_one\<lparr>Cycle_UUID := ''u'', Cycle_StartedAt := 1000,
     Cycle_Status := ''running''\<rparr>"

definition store_one_job :: Store where
  "store_one_job = \<lparr>db_err = None, jobs = [session_job ''uu'' ''u'' ''alice'' 0],
     cycles = [cycle_one], worker_rows = []\<rparr>"



definition cycle_x :: Cycle where
  "cycle_x = zero_Cycle\<lparr>Cycle_UUID := ''x'', Cycle_DoneAt := 5, Cycle_Status := ''running''\<rparr>"

definition report_with_cycle :: json where
  "report_with_cycle = JObject
     [(''uuid'', JString ''j9''), (''status'', JString ''completed''),
      (''Cycle'', JObject [(''uuid'', JString ''x''), (''done_at'', JNumber 5),
                           (''status'', JString ''running'')])]"

section \<open>Properties of the dispatcher\<close>

lemma GetActiveWorkers_in_registry:
  "w \<in> set (GetActiveWorkers order d) \<Longrightarrow> \<exists>k \<in> set order. workers d k = Some w"
  by (auto simp: GetActiveWorkers_def List.map_filter_def)

text \<open>
  C1.  When the snapshot \<open>GetActiveWorkers\<close> returns is not empty, the job with
  the chosen worker's uuid stamped on it serializes, and the connection accepts
  the publish, \<open>DispatchJob\<close> returns no error, the job's \<open>worker_id\<close> is the uuid
  of a worker of that snapshot, and exactly the serialized job is appended to
  the published messages, on the subject \<open>dispatcher.job.<uuid of that worker>\<close>.
\<close>

theorem DispatchJob_ok:
  assumes "GetActiveWorkers order d \<noteq> []"
    and "r < length (GetActiveWorkers order d)"
    and "Marshal_Job (job\<lparr>Job_WorkerID := Worker_UUID (GetActiveWorkers order d ! r)\<rparr>) = Inr data"
    and "conn_err (nc d) = None"
  shows "\<exists>w \<in> set (GetActiveWorkers order d).
           DispatchJob order r d job =
             (None, job\<lparr>Job_WorkerID := Worker_UUID w\<rparr>,
              d\<lparr>nc := (nc d)\<lparr>published :=
                   published (nc d) @ [(''dispatcher.job.'' @ Worker_UUID w, data)]\<rparr>\<rparr>)
           \<and> Marshal_Job (job\<lparr>Job_WorkerID := Worker_UUID w\<rparr>) = Inr data"
proof -
  let ?w = "GetActiveWorkers order d ! r"
  have "?w \<in> set (GetActiveWorkers order d)"
    using assms(2) by simp
  moreover have "DispatchJob order r d job =
      (None, job\<lparr>Job_WorkerID := Worker_UUID ?w\<rparr>,
       d\<lparr>nc := (nc d)\<lparr>published :=
            published (nc d) @ [(''dispatcher.job.'' @ Worker_UUID ?w, data)]\<rparr>\<rparr>)"
    using assms by (simp add: DispatchJob_def Let_def Publish_def nc_Publish_def)
  ultimately show ?thesis
    using assms(3) by blast
qed

lemma w1_snapshot: "GetActiveWorkers [''w1''] dispatcher_w1 = [worker_w1]"
  by (simp add: GetActiveWorkers_def List.map_filter_def dispatcher_w1_def)

theorem DispatchJob_ok_witness:
  "GetActiveWorkers [''w1''] dispatcher_w1 \<noteq> [] \<and> 0 < length (GetActiveWorkers [''w1''] dispatcher_w1)
   \<and> conn_err (nc dispatcher_w1) = None
   \<and> (\<exists>data. Marshal_Job (job_j1\<lparr>Job_WorkerID := Worker_UUID (GetActiveWorkers [''w1''] dispatcher_w1 ! 0)\<rparr>) = Inr data \<and>
      (\<exists>w \<in> set (GetActiveWorkers [''w1''] dispatcher_w1).
           DispatchJob [''w1''] 0 dispatcher_w1 job_j1 =
             (None, job_j1\<lparr>Job_WorkerID := Worker_UUID w\<rparr>,
              dispatcher_w1\<lparr>nc := (nc dispatcher_w1)\<lparr>published :=
                   published (nc dispatcher_w1) @ [(''dispatcher.job.'' @ Worker_UUID w, data)]\<rparr>\<rparr>)
           \<and> Marshal_Job (job_j1\<lparr>Job_WorkerID := Worker_UUID w\<rparr>) = Inr data))"
proof -
  have h1: "GetActiveWorkers [''w1''] dispatcher_w1 \<noteq> []" by (simp add: w1_snapshot)
  have h2: "0 < length (GetActiveWorkers [''w1''] dispatcher_w1)" by (simp add: w1_snapshot)
  obtain data where h3: "Marshal_Job (job_j1\<lparr>Job_WorkerID := Worker_UUID (GetActiveWorkers [''w1''] dispatcher_w1 ! 0)\<rparr>) = Inr data"
    by (simp add: Marshal_Job_def job_j1_def zero_Job_def bindE_def)
  have h4: "conn_err (nc dispatcher_w1) = None" by (simp add: dispatcher_w1_def conn0_def)
  from DispatchJob_ok [OF h1 h2 h3 h4] h1 h2 h3 h4 show ?thesis by blast
qed

text \<open>
  C2.  When the snapshot is empty, \<open>DispatchJob\<close> returns the error "no active
  workers available"; the dispatcher, and with it the list of published
  messages, is what it was, and so is the job: no \<open>worker_id\<close> is stamped.
\<close>

theorem DispatchJob_no_workers:
  assumes "GetActiveWorkers order d = []"
  shows "DispatchJob order r d job = (Some NoActiveWorkers, job, d)"
  using assms by (simp add: DispatchJob_def)

theorem DispatchJob_no_workers_witness:
  "GetActiveWorkers [] (NewDispatcher conn0) = []
   \<and> DispatchJob [] 0 (NewDispatcher conn0) job_j1 = (Some NoActiveWorkers, job_j1, NewDispatcher conn0)"
proof -
  have h: "GetActiveWorkers [] (NewDispatcher conn0) = []"
    by (simp add: GetActiveWorkers_def List.map_filter_def)
  from DispatchJob_no_workers [OF h] h show ?thesis by simp
qed

text \<open>
  C9.  When \<open>DispatchJob\<close> has chosen a worker from a snapshot that is not empty
  and then fails, at \<open>json.Marshal\<close> or at the publish, it returns that error and
  publishes nothing, yet the job it was given already carries the chosen
  worker's uuid as \<open>worker_id\<close>.
\<close>

theorem DispatchJob_failure_stamps_job:
  assumes "GetActiveWorkers order d \<noteq> []"
    and "r < length (GetActiveWorkers order d)"
    and "DispatchJob order r d job = (Some e, job', d')"
  shows "job' = job\<lparr>Job_WorkerID := Worker_UUID (GetActiveWorkers order d ! r)\<rparr>
         \<and> Job_WorkerID job' = Worker_UUID (GetActiveWorkers order d ! r)
         \<and> GetActiveWorkers order d ! r \<in> set (GetActiveWorkers order d)
         \<and> ((\<exists>e'. e = MarshalFailed e') \<or> (\<exists>e'. e = DispatchFailed e'))
         \<and> d' = d"
  using assms
  by (auto simp: DispatchJob_def Let_def split: sum.splits)

theorem DispatchJob_failure_stamps_job_witness:
  "GetActiveWorkers [''w1''] dispatcher_closed \<noteq> [] \<and> 0 < length (GetActiveWorkers [''w1''] dispatcher_closed)
   \<and> DispatchJob [''w1''] 0 dispatcher_closed job_j1 =
       (Some (DispatchFailed ConnectionError), job_j1\<lparr>Job_WorkerID := ''w1''\<rparr>, dispatcher_closed)
   \<and> job_j1\<lparr>Job_WorkerID := ''w1''\<rparr> \<noteq> job_j1
   \<and> Job_WorkerID (job_j1\<lparr>Job_WorkerID := ''w1''\<rparr>) =
       Worker_UUID (GetActiveWorkers [''w1''] dispatcher_closed ! 0)"
proof -
  have s: "GetActiveWorkers [''w1''] dispatcher_closed = [worker_w1]"
    by (simp add: GetActiveWorkers_def List.map_filter_def dispatcher_w1_def dispatcher_closed_def)
  have h1: "GetActiveWorkers [''w1''] dispatcher_closed \<noteq> []" by (simp add: s)
  have h2: "0 < length (GetActiveWorkers [''w1''] dispatcher_closed)" by (simp add: s)
  have h3: "DispatchJob [''w1''] 0 dispatcher_closed job_j1 =
       (Some (DispatchFailed ConnectionError), job_j1\<lparr>Job_WorkerID := ''w1''\<rparr>, dispatcher_closed)"
  proof -
    have c: "conn_err (nc dispatcher_closed) = Some ConnectionError"
      by (simp add: dispatcher_closed_def)
    show ?thesis
      by (simp add: DispatchJob_def s c worker_w1_def Marshal_Job_def job_j1_def zero_Job_def
          bindE_def Publish_def nc_Publish_def)
  qed
  have h4: "job_j1\<lparr>Job_WorkerID := ''w1''\<rparr> \<noteq> job_j1"
    by (simp add: job_j1_def zero_Job_def)
  note DispatchJob_failure_stamps_job [OF h1 h2 h3]
  with h1 h2 h3 h4 show ?thesis by blast
qed

lemma decode_register_w1: "Unmarshal_WorkerRegistrationMessage register_w1 = Inr regMsg_w1"
  by (simp add: Unmarshal_WorkerRegistrationMessage_def register_w1_def regMsg_w1_def
      lookup_key_def bindE_def)

lemma decode_deregister_w1: "Unmarshal_WorkerRegistrationMessage deregister_w1 = Inr derMsg_w1"
  by (simp add: Unmarshal_WorkerRegistrationMessage_def deregister_w1_def derMsg_w1_def
      lookup_key_def bindE_def)

lemma decode_heartbeat_ghost:
  "Unmarshal_WorkerRegistrationMessage heartbeat_ghost =
     Inr \<lparr>WorkerID = ''ghost'', Name = [], Capabilities = [], Status = ''heartbeat''\<rparr>"
  by (simp add: Unmarshal_WorkerRegistrationMessage_def heartbeat_ghost_def
      lookup_key_def bindE_def)

lemma decode_heartbeat_w1:
  "Unmarshal_WorkerRegistrationMessage heartbeat_w1 =
     Inr \<lparr>WorkerID = ''w1'', Name = [], Capabilities = [], Status = ''heartbeat''\<rparr>"
  by (simp add: Unmarshal_WorkerRegistrationMessage_def heartbeat_w1_def
      lookup_key_def bindE_def)

text \<open>
  C4 fails for the heartbeat map: a heartbeat for a worker that is in neither
  map creates an entry in \<open>lastHeartbeat\<close>; the handler never looks at the
  registry.
\<close>

theorem ghost_heartbeat_counterexample:
  "workers (NewDispatcher conn0) ''ghost'' = None
   \<and> lastHeartbeat (NewDispatcher conn0) ''ghost'' = None
   \<and> lastHeartbeat (handleHeartbeats_msg 7 heartbeat_ghost (NewDispatcher conn0)) ''ghost'' = Some 7"
  by (simp add: handleHeartbeats_msg_def decode_heartbeat_ghost NewDispatcher_def)

text \<open>
  C4, as the code has it.  A payload on \<open>dispatcher.worker.heartbeat\<close> that
  decodes with status "heartbeat" sets \<open>lastHeartbeat[worker_id]\<close> to \<open>now\<close>
  whether or not the worker is in the registry, so for an unknown worker an
  entry is created in the heartbeat map; the registry is left as it was, so no
  entry is created there.
\<close>

theorem handleHeartbeats_msg_effect:
  assumes "Unmarshal_WorkerRegistrationMessage data = Inr hbMsg"
    and "Status hbMsg = ''heartbeat''"
  shows "lastHeartbeat (handleHeartbeats_msg now data d) = (lastHeartbeat d)(WorkerID hbMsg \<mapsto> now)
         \<and> workers (handleHeartbeats_msg now data d) = workers d
         \<and> nc (handleHeartbeats_msg now data d) = nc d"
  using assms by (simp add: handleHeartbeats_msg_def)

theorem handleHeartbeats_msg_effect_witness:
  "Unmarshal_WorkerRegistrationMessage heartbeat_w1 =
     Inr \<lparr>WorkerID = ''w1'', Name = [], Capabilities = [], Status = ''heartbeat''\<rparr>
   \<and> lastHeartbeat (handleHeartbeats_msg 9 heartbeat_w1 dispatcher_w1) ''w1'' = Some 9
   \<and> workers (handleHeartbeats_msg 9 heartbeat_w1 dispatcher_w1) ''w1'' = Some worker_w1
   \<and> workers (handleHeartbeats_msg 7 heartbeat_ghost (NewDispatcher conn0)) ''ghost'' = None"
proof -
  have s: "Status \<lparr>WorkerID = ''w1'', Name = [], Capabilities = [], Status = ''heartbeat''\<rparr> = ''heartbeat''"
    by simp
  have g: "Status \<lparr>WorkerID = ''ghost'', Name = [], Capabilities = [], Status = ''heartbeat''\<rparr> = ''heartbeat''"
    by simp
  note a = handleHeartbeats_msg_effect [OF decode_heartbeat_w1 s, of 9 dispatcher_w1]
  note b = handleHeartbeats_msg_effect [OF decode_heartbeat_ghost g, of 7 "NewDispatcher conn0"]
  have "lastHeartbeat (handleHeartbeats_msg 9 heartbeat_w1 dispatcher_w1) ''w1'' = Some 9"
    using a by simp
  moreover have "workers (handleHeartbeats_msg 9 heartbeat_w1 dispatcher_w1) ''w1'' = Some worker_w1"
    using a by (simp add: dispatcher_w1_def)
  moreover have "workers (handleHeartbeats_msg 7 heartbeat_ghost (NewDispatcher conn0)) ''ghost'' = None"
    using b by (simp add: NewDispatcher_def)
  ultimately show ?thesis using decode_heartbeat_w1 by blast
qed

lemma decode_register_w1_bare:
  "Unmarshal_WorkerRegistrationMessage register_w1_bare = Inr (regMsg_w1\<lparr>Capabilities := []\<rparr>)"
  by (simp add: Unmarshal_WorkerRegistrationMessage_def register_w1_bare_def regMsg_w1_def
      lookup_key_def bindE_def)

lemma handle_register_w1:
  "handleRegistrations_msg 7 register_w1 (NewDispatcher conn0) =
     \<lparr>nc = conn0, workers = [''w1'' \<mapsto> worker_w1], lastHeartbeat = [''w1'' \<mapsto> 7]\<rparr>"
  by (simp add: handleRegistrations_msg_def decode_register_w1 regMsg_w1_def
      reg_workers_section_def reg_heartbeat_section_def NewDispatcher_def worker_w1_def)

lemma handle_register_w1_bare:
  "handleRegistrations_msg 7 register_w1_bare (NewDispatcher conn0) =
     \<lparr>nc = conn0, workers = [''w1'' \<mapsto> worker_w1], lastHeartbeat = [''w1'' \<mapsto> 7]\<rparr>"
  by (simp add: handleRegistrations_msg_def decode_register_w1_bare regMsg_w1_def
      reg_workers_section_def reg_heartbeat_section_def NewDispatcher_def worker_w1_def)

text \<open>
  C8 fails for the capabilities: the registry entry does not carry them.  A
  registration with capabilities \<open>["x"]\<close> and one with none leave the
  dispatcher in the same state, the entry being a uuid and a name.
\<close>

theorem registration_capabilities_counterexample:
  "Unmarshal_WorkerRegistrationMessage register_w1 = Inr regMsg_w1
   \<and> Capabilities regMsg_w1 = [''x'']
   \<and> Unmarshal_WorkerRegistrationMessage register_w1_bare = Inr (regMsg_w1\<lparr>Capabilities := []\<rparr>)
   \<and> workers (handleRegistrations_msg 7 register_w1 (NewDispatcher conn0)) ''w1''
       = Some \<lparr>Worker_UUID = ''w1'', Worker_Name = ''W''\<rparr>
   \<and> handleRegistrations_msg 7 register_w1 (NewDispatcher conn0)
       = handleRegistrations_msg 7 register_w1_bare (NewDispatcher conn0)"
  by (simp add: decode_register_w1 decode_register_w1_bare handle_register_w1
      handle_register_w1_bare worker_w1_def regMsg_w1_def)

text \<open>
  C8, as the code has it.  A payload on \<open>dispatcher.worker.register\<close> that
  decodes with status "registered" inserts or overwrites \<open>workers[worker_id]\<close>
  with the \<open>Worker\<close> made of the message's \<open>worker_id\<close> and \<open>name\<close> (the
  capabilities are not stored) and sets \<open>lastHeartbeat[worker_id]\<close> to \<open>now\<close>.
\<close>

theorem handleRegistrations_msg_effect:
  assumes "Unmarshal_WorkerRegistrationMessage data = Inr regMsg"
    and "Status regMsg = ''registered''"
  shows "workers (handleRegistrations_msg now data d) =
           (workers d)(WorkerID regMsg \<mapsto> \<lparr>Worker_UUID = WorkerID regMsg, Worker_Name = Name regMsg\<rparr>)
         \<and> lastHeartbeat (handleRegistrations_msg now data d) = (lastHeartbeat d)(WorkerID regMsg \<mapsto> now)
         \<and> nc (handleRegistrations_msg now data d) = nc d"
  using assms
  by (simp add: handleRegistrations_msg_def reg_workers_section_def reg_heartbeat_section_def)

theorem handleRegistrations_msg_effect_witness:
  "Unmarshal_WorkerRegistrationMessage register_w1 = Inr regMsg_w1
   \<and> Status regMsg_w1 = ''registered''
   \<and> workers (handleRegistrations_msg 7 register_w1 (NewDispatcher conn0)) ''w1''
       = Some \<lparr>Worker_UUID = ''w1'', Worker_Name = ''W''\<rparr>
   \<and> lastHeartbeat (handleRegistrations_msg 7 register_w1 (NewDispatcher conn0)) ''w1'' = Some 7"
proof -
  have s: "Status regMsg_w1 = ''registered''" by (simp add: regMsg_w1_def)
  note a = handleRegistrations_msg_effect [OF decode_register_w1 s, of 7 "NewDispatcher conn0"]
  have "workers (handleRegistrations_msg 7 register_w1 (NewDispatcher conn0)) ''w1''
       = Some \<lparr>Worker_UUID = ''w1'', Worker_Name = ''W''\<rparr>"
    using a by (simp add: regMsg_w1_def)
  moreover have "lastHeartbeat (handleRegistrations_msg 7 register_w1 (NewDispatcher conn0)) ''w1'' = Some 7"
    using a by (simp add: regMsg_w1_def)
  ultimately show ?thesis using decode_register_w1 s by blast
qed

lemma inv_register: "registry_inv d \<Longrightarrow> registry_inv (handleRegistrations_msg now data d)"
  by (auto simp: registry_inv_def handleRegistrations_msg_def reg_workers_section_def
      reg_heartbeat_section_def split: sum.splits)

lemma inv_heartbeat: "registry_inv d \<Longrightarrow> registry_inv (handleHeartbeats_msg now data d)"
  by (auto simp: registry_inv_def handleHeartbeats_msg_def split: sum.splits)

lemma inv_deregister: "registry_inv d \<Longrightarrow> registry_inv (handleDeregistrations_msg data d)"
  by (auto simp: registry_inv_def handleDeregistrations_msg_def dereg_workers_section_def
      dereg_heartbeat_section_def split: sum.splits if_splits)

lemma inv_cleanup_entry: "registry_inv d \<Longrightarrow> registry_inv (cleanup_entry now k d)"
  by (auto simp: registry_inv_def cleanup_entry_def split: option.splits if_splits)

lemma inv_cleanup_tick: "registry_inv d \<Longrightarrow> registry_inv (cleanup_tick order now d)"
  unfolding cleanup_tick_def
  by (induction order arbitrary: d) (simp_all add: inv_cleanup_entry)

lemma inv_step: "registry_inv d \<Longrightarrow> registry_inv (step ev d)"
  by (cases ev) (simp_all add: inv_register inv_heartbeat inv_deregister inv_cleanup_tick)

lemma inv_run: "registry_inv d \<Longrightarrow> registry_inv (run evs d)"
  unfolding run_def
  by (induction evs arbitrary: d) (simp_all add: inv_step)

lemma inv_NewDispatcher: "registry_inv (NewDispatcher c)"
  by (simp add: registry_inv_def NewDispatcher_def)

text \<open>
  C10, as the code has it.  In every state reached from \<open>NewDispatcher\<close> by
  handler iterations that each run to completion before the next one starts
  (registrations, heartbeats, deregistrations and sweeps, in any order, with
  any payloads, clock readings and map iteration orders), every key of the
  registry is a key of the heartbeat map.
\<close>

theorem registry_subset_heartbeats:
  "dom (workers (run evs (NewDispatcher c))) \<subseteq> dom (lastHeartbeat (run evs (NewDispatcher c)))"
  using inv_run [OF inv_NewDispatcher] by (simp add: registry_inv_def)

theorem registry_subset_heartbeats_witness:
  "dom (workers (run [Register 1 register_w1, Heartbeat 2 heartbeat_ghost,
                       Deregister deregister_w1, Sweep [''ghost''] 3] (NewDispatcher conn0)))
   \<subseteq> dom (lastHeartbeat (run [Register 1 register_w1, Heartbeat 2 heartbeat_ghost,
                       Deregister deregister_w1, Sweep [''ghost''] 3] (NewDispatcher conn0)))"
  by (rule registry_subset_heartbeats)

text \<open>
  C10 fails for states inside and across handler iterations: between the two
  critical sections of one registration the registry has a key the heartbeat
  map lacks; and after the interleaving \<open>interleaved_w1\<close>, with both handlers
  idle again, \<open>w1\<close> is registered and has no heartbeat entry.
\<close>

theorem interleaved_sections_break_subset:
  "workers (reg_workers_section regMsg_w1 (NewDispatcher conn0)) ''w1'' = Some worker_w1
   \<and> lastHeartbeat (reg_workers_section regMsg_w1 (NewDispatcher conn0)) ''w1'' = None
   \<and> workers (interleaved_w1 7) ''w1'' = Some worker_w1
   \<and> lastHeartbeat (interleaved_w1 7) ''w1'' = None
   \<and> \<not> dom (workers (interleaved_w1 7)) \<subseteq> dom (lastHeartbeat (interleaved_w1 7))"
  by (auto simp: interleaved_w1_def dereg_heartbeat_section_def reg_heartbeat_section_def
      reg_workers_section_def dereg_workers_section_def NewDispatcher_def regMsg_w1_def
      derMsg_w1_def worker_w1_def)

lemma cleanup_entry_no_heartbeat:
  "lastHeartbeat d w = None \<Longrightarrow>
   lastHeartbeat (cleanup_entry now k d) w = None \<and> workers (cleanup_entry now k d) w = workers d w"
  by (auto simp: cleanup_entry_def split: option.splits)

lemma cleanup_tick_no_heartbeat:
  "lastHeartbeat d w = None \<Longrightarrow>
   lastHeartbeat (cleanup_tick order now d) w = None \<and> workers (cleanup_tick order now d) w = workers d w"
  unfolding cleanup_tick_def
proof (induction order arbitrary: d)
  case Nil
  then show ?case by simp
next
  case (Cons k ks)
  from cleanup_entry_no_heartbeat [OF Cons.prems, of now k]
  have a: "lastHeartbeat (cleanup_entry now k d) w = None"
    and b: "workers (cleanup_entry now k d) w = workers d w" by simp_all
  from Cons.IH [OF a] b show ?case by simp
qed

lemma sweeps_no_heartbeat:
  "lastHeartbeat d w = None \<Longrightarrow>
   lastHeartbeat (fold (\<lambda>(order, now). cleanup_tick order now) ticks d) w = None
   \<and> workers (fold (\<lambda>(order, now). cleanup_tick order now) ticks d) w = workers d w"
proof (induction ticks arbitrary: d)
  case Nil
  then show ?case by simp
next
  case (Cons t ts)
  obtain order now where t: "t = (order, now)" by (cases t)
  from cleanup_tick_no_heartbeat [OF Cons.prems, of order now]
  have a: "lastHeartbeat (cleanup_tick order now d) w = None"
    and b: "workers (cleanup_tick order now d) w = workers d w" by simp_all
  from Cons.IH [OF a] b show ?case by (simp add: t)
qed

text \<open>
  C3 at the interleaving \<open>interleaved_w1\<close>.  The worker \<open>w1\<close> registered and
  deregistered, sends nothing after time \<open>T\<close>, and its two messages were
  handled as \<open>interleaved_w1 T\<close> describes.  It has no heartbeat entry, the
  sweeper ranges over the heartbeat map only, and so after any number of
  sweeps, at any clock readings and in any iteration order, the snapshot still
  holds \<open>w1\<close>.
\<close>

theorem interleaved_worker_never_swept:
  "GetActiveWorkers [''w1'']
     (fold (\<lambda>(order, now). cleanup_tick order now) ticks (interleaved_w1 T)) = [worker_w1]"
proof -
  have h: "lastHeartbeat (interleaved_w1 T) ''w1'' = None"
    by (simp add: interleaved_w1_def dereg_heartbeat_section_def derMsg_w1_def)
  have w: "workers (interleaved_w1 T) ''w1'' = Some worker_w1"
    by (simp add: interleaved_w1_def dereg_heartbeat_section_def reg_heartbeat_section_def
      reg_workers_section_def dereg_workers_section_def NewDispatcher_def regMsg_w1_def
      derMsg_w1_def worker_w1_def)
  from sweeps_no_heartbeat [OF h, of ticks] w show ?thesis
    by (simp add: GetActiveWorkers_def List.map_filter_def)
qed

subsection \<open>Eviction of a silent worker\<close>

lemma step_heartbeat_other:
  "refresh_time w ev = None \<Longrightarrow> lastHeartbeat (step ev d) w = lastHeartbeat d w
     \<or> lastHeartbeat (step ev d) w = None"
proof (cases ev)
  case (Register now data)
  assume "refresh_time w ev = None"
  with Register show ?thesis
    by (auto simp: handleRegistrations_msg_def reg_workers_section_def reg_heartbeat_section_def
        accepted_def split: sum.splits if_splits)
next
  case (Heartbeat now data)
  assume "refresh_time w ev = None"
  with Heartbeat show ?thesis
    by (auto simp: handleHeartbeats_msg_def accepted_def split: sum.splits if_splits)
next
  case (Deregister data)
  then show ?thesis
    by (auto simp: handleDeregistrations_msg_def dereg_workers_section_def
        dereg_heartbeat_section_def split: sum.splits)
next
  case (Sweep order now)
  have "lastHeartbeat (fold (cleanup_entry now) order d) w = lastHeartbeat d w
     \<or> lastHeartbeat (fold (cleanup_entry now) order d) w = None" for d
  proof (induction order arbitrary: d)
    case Nil
    then show ?case by simp
  next
    case (Cons k ks)
    have "lastHeartbeat (cleanup_entry now k d) w = lastHeartbeat d w
       \<or> lastHeartbeat (cleanup_entry now k d) w = None"
      by (auto simp: cleanup_entry_def split: option.splits)
    with Cons.IH [of "cleanup_entry now k d"] show ?case by auto
  qed
  with Sweep show ?thesis by (simp add: cleanup_tick_def)
qed

lemma step_heartbeat_refresh:
  "refresh_time w ev = Some t \<Longrightarrow> lastHeartbeat (step ev d) w = Some t"
proof (cases ev)
  case (Register now data)
  assume "refresh_time w ev = Some t"
  with Register show ?thesis
    by (auto simp: handleRegistrations_msg_def reg_workers_section_def reg_heartbeat_section_def
        accepted_def split: sum.splits if_splits)
next
  case (Heartbeat now data)
  assume "refresh_time w ev = Some t"
  with Heartbeat show ?thesis
    by (auto simp: handleHeartbeats_msg_def accepted_def split: sum.splits if_splits)
qed simp_all

lemma run_heartbeat_bound:
  assumes "\<forall>ev\<in>set evs. \<forall>t. refresh_time w ev = Some t \<longrightarrow> t \<le> T"
    and "\<forall>t. lastHeartbeat d w = Some t \<longrightarrow> t \<le> T"
  shows "\<forall>t. lastHeartbeat (run evs d) w = Some t \<longrightarrow> t \<le> T"
  using assms unfolding run_def
proof (induction evs arbitrary: d)
  case Nil
  then show ?case by simp
next
  case (Cons ev evs)
  have "\<forall>t. lastHeartbeat (step ev d) w = Some t \<longrightarrow> t \<le> T"
  proof (cases "refresh_time w ev")
    case None
    from step_heartbeat_other [OF None, of d] Cons.prems(2) show ?thesis by auto
  next
    case (Some t)
    from step_heartbeat_refresh [OF Some, of d] Cons.prems(1) Some show ?thesis by auto
  qed
  with Cons.IH [of "step ev d"] Cons.prems(1) show ?case by simp
qed

lemma cleanup_entry_other:
  "k \<noteq> w \<Longrightarrow> lastHeartbeat (cleanup_entry now k d) w = lastHeartbeat d w
     \<and> workers (cleanup_entry now k d) w = workers d w"
  by (auto simp: cleanup_entry_def split: option.splits)

lemma cleanup_entry_stale:
  "lastHeartbeat d w = Some t \<Longrightarrow> now - t > 15 * Second \<Longrightarrow>
   lastHeartbeat (cleanup_entry now w d) w = None \<and> workers (cleanup_entry now w d) w = None"
  by (simp add: cleanup_entry_def)

lemma cleanup_tick_stale:
  assumes "lastHeartbeat d w = Some t" and "now - t > 15 * Second" and "w \<in> set order"
  shows "lastHeartbeat (cleanup_tick order now d) w = None
       \<and> workers (cleanup_tick order now d) w = None"
  using assms unfolding cleanup_tick_def
proof (induction order arbitrary: d)
  case Nil
  then show ?case by simp
next
  case (Cons k ks)
  show ?case
  proof (cases "k = w")
    case True
    from cleanup_entry_stale [OF Cons.prems(1,2)]
    have a: "lastHeartbeat (cleanup_entry now w d) w = None"
      and b: "workers (cleanup_entry now w d) w = None" by simp_all
    from cleanup_tick_no_heartbeat [OF a, of ks now] b True show ?thesis
      by (simp add: cleanup_tick_def)
  next
    case False
    with Cons.prems(3) have m: "w \<in> set ks" by simp
    from cleanup_entry_other [OF False, of now d] Cons.prems(1)
    have a: "lastHeartbeat (cleanup_entry now k d) w = Some t" by simp
    from Cons.IH [OF a Cons.prems(2) m] show ?thesis by simp
  qed
qed

lemma step_not_registers:
  "\<not> registers w ev \<Longrightarrow> workers d w = None \<Longrightarrow> workers (step ev d) w = None"
proof (cases ev)
  case (Register now data)
  assume "\<not> registers w ev" "workers d w = None"
  with Register show ?thesis
    by (auto simp: handleRegistrations_msg_def reg_workers_section_def reg_heartbeat_section_def
        accepted_def split: sum.splits if_splits)
next
  case (Heartbeat now data)
  assume "workers d w = None"
  with Heartbeat show ?thesis
    by (auto simp: handleHeartbeats_msg_def split: sum.splits)
next
  case (Deregister data)
  assume "workers d w = None"
  with Deregister show ?thesis
    by (auto simp: handleDeregistrations_msg_def dereg_workers_section_def
        dereg_heartbeat_section_def split: sum.splits)
next
  case (Sweep order now)
  assume w: "workers d w = None"
  have "workers (fold (cleanup_entry now) order d) w = None" if "workers d w = None" for d
    using that
  proof (induction order arbitrary: d)
    case Nil
    then show ?case by simp
  next
    case (Cons k ks)
    have "workers (cleanup_entry now k d) w = None"
      using Cons.prems by (auto simp: cleanup_entry_def split: option.splits)
    from Cons.IH [OF this] show ?case by simp
  qed
  with Sweep w show ?thesis by (simp add: cleanup_tick_def)
qed

lemma run_not_registers:
  "\<forall>ev\<in>set evs. \<not> registers w ev \<Longrightarrow> workers d w = None \<Longrightarrow> workers (run evs d) w = None"
  unfolding run_def
  by (induction evs arbitrary: d) (simp_all add: step_not_registers)

lemma keyed_step: "keyed_by_uuid d \<Longrightarrow> keyed_by_uuid (step ev d)"
proof (cases ev)
  case (Sweep order now)
  assume k: "keyed_by_uuid d"
  have "keyed_by_uuid (fold (cleanup_entry now) order d)" if "keyed_by_uuid d" for d
    using that
  proof (induction order arbitrary: d)
    case Nil
    then show ?case by simp
  next
    case (Cons k ks)
    have "keyed_by_uuid (cleanup_entry now k d)"
      using Cons.prems by (auto simp: keyed_by_uuid_def cleanup_entry_def split: option.splits)
    from Cons.IH [OF this] show ?case by simp
  qed
  with Sweep k show ?thesis by (simp add: cleanup_tick_def)
qed (auto simp: keyed_by_uuid_def handleRegistrations_msg_def reg_workers_section_def
      reg_heartbeat_section_def handleHeartbeats_msg_def handleDeregistrations_msg_def
      dereg_workers_section_def dereg_heartbeat_section_def split: sum.splits if_splits)

lemma keyed_run: "keyed_by_uuid d \<Longrightarrow> keyed_by_uuid (run evs d)"
  unfolding run_def by (induction evs arbitrary: d) (simp_all add: keyed_step)

text \<open>
  Eviction in runs whose handler iterations do not interleave.  Let every clock
  reading written for \<open>w\<close> before some sweep be at most \<open>T\<close>, let that sweep
  read a clock later than \<open>T + 15 s\<close> and visit \<open>w\<close> if \<open>w\<close> has a heartbeat
  entry, and let no registration of \<open>w\<close> follow.  Then no snapshot taken
  afterwards holds a worker with uuid \<open>w\<close>.
\<close>

lemma silent_worker_swept:
  assumes quiet: "\<forall>ev\<in>set pre. \<forall>t. refresh_time w ev = Some t \<longrightarrow> t \<le> T"
    and late: "T + 15 * Second < now"
    and visit: "w \<in> dom (lastHeartbeat (run pre (NewDispatcher c))) \<longrightarrow> w \<in> set order"
    and no_reg: "\<forall>ev\<in>set post. \<not> registers w ev"
  shows "w \<notin> Worker_UUID ` set (GetActiveWorkers order'
           (run (pre @ Sweep order now # post) (NewDispatcher c)))"
proof -
  let ?d0 = "NewDispatcher c"
  let ?d1 = "run pre ?d0"
  let ?d2 = "cleanup_tick order now ?d1"
  let ?d3 = "run post ?d2"
  have r: "run (pre @ Sweep order now # post) ?d0 = ?d3"
    by (simp add: run_def)
  have b: "\<forall>t. lastHeartbeat ?d1 w = Some t \<longrightarrow> t \<le> T"
    by (rule run_heartbeat_bound [OF quiet]) (simp add: NewDispatcher_def)
  have i: "registry_inv ?d1" by (rule inv_run [OF inv_NewDispatcher])
  have gone: "workers ?d2 w = None"
  proof (cases "lastHeartbeat ?d1 w")
    case None
    with i have "workers ?d1 w = None" by (auto simp: registry_inv_def)
    with cleanup_tick_no_heartbeat [OF None, of order now] show ?thesis by simp
  next
    case (Some t)
    with b late have "now - t > 15 * Second" by auto
    moreover from Some visit have "w \<in> set order" by auto
    ultimately show ?thesis using cleanup_tick_stale [OF Some] by simp
  qed
  have w3: "workers ?d3 w = None" by (rule run_not_registers [OF no_reg gone])
  have k: "keyed_by_uuid ?d3"
    unfolding r [symmetric] by (rule keyed_run) (simp add: keyed_by_uuid_def NewDispatcher_def)
  show ?thesis
  proof
    assume "w \<in> Worker_UUID ` set (GetActiveWorkers order' (run (pre @ Sweep order now # post) ?d0))"
    then obtain x where x: "x \<in> set (GetActiveWorkers order' ?d3)" and u: "Worker_UUID x = w"
      unfolding r by auto
    from GetActiveWorkers_in_registry [OF x] obtain key where "workers ?d3 key = Some x" by blast
    with k u have "workers ?d3 w = Some x" by (auto simp: keyed_by_uuid_def)
    with w3 show False by simp
  qed
qed

text \<open>
  A ticker of period 10 s that was started by \<open>T + 15 s\<close> has a tick later than
  \<open>T + 15 s\<close> and no later than \<open>T + 25 s\<close>.
\<close>

lemma tick_within_window:
  assumes "t0 \<le> T + 15 * Second"
  shows "\<exists>n::nat. 1 \<le> n \<and> T + 15 * Second < t0 + int n * cleanup_period
            \<and> t0 + int n * cleanup_period \<le> T + 25 * Second"
proof -
  let ?p = "cleanup_period"
  let ?x = "T + 15 * Second - t0"
  have p: "?p = 10 * Second" "0 < ?p" by (simp_all add: cleanup_period_def Second_def)
  have x: "0 \<le> ?x" using assms by simp
  let ?n = "nat (?x div ?p) + 1"
  have d: "0 \<le> ?x div ?p" using x p(2) by (simp add: pos_imp_zdiv_nonneg_iff)
  have "int ?n * ?p = (?x div ?p) * ?p + ?p" using d by (simp add: algebra_simps)
  moreover have "(?x div ?p) * ?p \<le> ?x"
    using p(2) div_mult_mod_eq [of ?x ?p] pos_mod_sign [of ?p ?x] by linarith
  moreover have "?x < (?x div ?p) * ?p + ?p"
    using p(2) div_mult_mod_eq [of ?x ?p] pos_mod_bound [of ?p ?x] by linarith
  ultimately have "T + 15 * Second < t0 + int ?n * ?p \<and> t0 + int ?n * ?p \<le> T + 25 * Second"
    using p(1) by linarith
  then show ?thesis by (intro exI [of _ ?n]) simp
qed

section \<open>Properties of the worker agent\<close>

lemma worker_decodes_dispatched_job:
  assumes "Marshal_Job j = Inr data"
    and "- (2 ^ 63) \<le> Job_StartAt j" "Job_StartAt j < 2 ^ 63"
    and "- (2 ^ 63) \<le> Job_DoneAt j" "Job_DoneAt j < 2 ^ 63"
  shows "\<exists>inp out. Marshal_raw (Job_InputData j) = Inr inp \<and> Marshal_raw (Job_OutputData j) = Inr out \<and>
         Unmarshal_WJob data =
           Inr \<lparr>WJob_UUID = Job_UUID j, WJob_WorkerID = Job_WorkerID j, WJob_Name = Job_Name j,
                WJob_InputData = RDoc inp, WJob_OutputData = RDoc out,
                WJob_Error = Job_Error j, WJob_StartAt = Job_StartAt j,
                WJob_DoneAt = Job_DoneAt j, WJob_Status = Job_Status j\<rparr>"
  using assms
  by (auto simp: Marshal_Job_def Unmarshal_WJob_def bindE_def lookup_key_def split: sum.splits)

lemma handleJobs_msg_result:
  assumes "Marshal_Job j = Inr data"
    and "- (2 ^ 63) \<le> Job_StartAt j" "Job_StartAt j < 2 ^ 63"
    and "- (2 ^ 63) \<le> Job_DoneAt j" "Job_DoneAt j < 2 ^ 63"
    and "- (2 ^ 63) \<le> now1" "now1 < 2 ^ 63"
    and "- (2 ^ 63) \<le> now2" "now2 < 2 ^ 63"
    and "conn_err c = None"
  shows "\<exists>res inp. Marshal_raw (Job_InputData j) = Inr inp \<and>
           published (handleJobs_msg now1 now2 data c) = published c @ [(''dispatcher.job.result'', res)]
         \<and> Unmarshal_Job res =
             Inr (j\<lparr>Job_InputData := RDoc inp, Job_OutputData := RDoc processed,
                    Job_StartAt := now1, Job_DoneAt := now2, Job_Status := ''completed'',
                    Job_CycleUUID := [], Job_SessionID := [],
                    Job_Cycle := zero_Cycle, Job_Worker := zero_Worker\<rparr>)"
proof -
  from worker_decodes_dispatched_job [OF assms(1-5)]
  obtain inp out where i: "Marshal_raw (Job_InputData j) = Inr inp"
    and u: "Unmarshal_WJob data =
           Inr \<lparr>WJob_UUID = Job_UUID j, WJob_WorkerID = Job_WorkerID j, WJob_Name = Job_Name j,
                WJob_InputData = RDoc inp, WJob_OutputData = RDoc out,
                WJob_Error = Job_Error j, WJob_StartAt = Job_StartAt j,
                WJob_DoneAt = Job_DoneAt j, WJob_Status = Job_Status j\<rparr>"
    by blast
  have "published (handleJobs_msg now1 now2 data c) = published c @ [(''dispatcher.job.result'',
      JObject
         [(''uuid'', JString (Job_UUID j)),
          (''worker_id'', JString (Job_WorkerID j)),
          (''name'', JString (Job_Name j)),
          (''input_data'', inp),
          (''output_data'', processed),
          (''error'', JString (Job_Error j)),
          (''start_at'', JNumber now1),
          (''done_at'', JNumber now2),
          (''status'', JString ''completed'')])]"
    using assms(10) by (simp add: handleJobs_msg_def u Marshal_WJob_def bindE_def nc_Publish_def)
  moreover have "Unmarshal_Job (JObject
         [(''uuid'', JString (Job_UUID j)),
          (''worker_id'', JString (Job_WorkerID j)),
          (''name'', JString (Job_Name j)),
          (''input_data'', inp),
          (''output_data'', processed),
          (''error'', JString (Job_Error j)),
          (''start_at'', JNumber now1),
          (''done_at'', JNumber now2),
          (''status'', JString ''completed'')]) = Inr (j\<lparr>Job_InputData := RDoc inp, Job_OutputData := RDoc processed,
                    Job_StartAt := now1, Job_DoneAt := now2, Job_Status := ''completed'',
                    Job_CycleUUID := [], Job_SessionID := [],
                    Job_Cycle := zero_Cycle, Job_Worker := zero_Worker\<rparr>)"
    using assms(6-9)
    by (simp add: Unmarshal_Job_def as_Cycle_def as_Worker_def bindE_def lookup_key_def)
  ultimately show ?thesis using i by blast
qed

lemma marshal_job_c1:
  "Marshal_Job job_c1 = Inr (JObject
       [(''uuid'', JString ''j1''), (''worker_id'', JString ''w1''),
        (''name'', JString ''upload_file''),
        (''input_data'', JObject [(''a'', JNumber 1)]),
        (''output_data'', JNull), (''error'', JString []),
        (''start_at'', JNumber 0), (''done_at'', JNumber 0),
        (''status'', JString ''pending''), (''cycle_uuid'', JString ''c1''),
        (''session_id'', JString ''alice''), (''Cycle'', Marshal_Cycle zero_Cycle),
        (''Worker'', Marshal_Worker zero_Worker)])"
  by (simp add: Marshal_Job_def job_c1_def job_j1_def zero_Job_def bindE_def)

text \<open>
  C5 at the job \<open>job_c1\<close>.  The worker decodes the payload that \<open>DispatchJob\<close>
  published for it, and the payload it then publishes on
  \<open>dispatcher.job.result\<close> decodes, at the job service, to the job with
  \<open>start_at\<close>, \<open>done_at\<close>, status "completed" and the output set, but with
  \<open>cycle_uuid\<close> and \<open>session_id\<close> empty: they were \<open>c1\<close> and \<open>alice\<close>.
\<close>

theorem worker_result_drops_cycle_and_session:
  "\<exists>data res. Marshal_Job job_c1 = Inr data
     \<and> published (handleJobs_msg 100 101 data conn0) = [(''dispatcher.job.result'', res)]
     \<and> Unmarshal_Job res =
         Inr (job_c1\<lparr>Job_OutputData := RDoc processed, Job_StartAt := 100, Job_DoneAt := 101,
                Job_Status := ''completed'', Job_CycleUUID := [], Job_SessionID := []\<rparr>)
     \<and> Job_CycleUUID job_c1 = ''c1'' \<and> Job_SessionID job_c1 = ''alice''"
proof -
  have c: "conn_err conn0 = None" "published conn0 = []" by (simp_all add: conn0_def)
  have r: "Marshal_raw (Job_InputData job_c1) = Inr (JObject [(''a'', JNumber 1)])"
    "RDoc (JObject [(''a'', JNumber 1)]) = Job_InputData job_c1"
    by (simp_all add: job_c1_def job_j1_def zero_Job_def)
  have t: "Job_StartAt job_c1 = 0" "Job_DoneAt job_c1 = 0"
    by (simp_all add: job_c1_def job_j1_def zero_Job_def)
  have z: "Job_Cycle job_c1 = zero_Cycle" "Job_Worker job_c1 = zero_Worker"
    by (simp_all add: job_c1_def job_j1_def zero_Job_def)
  from handleJobs_msg_result [OF marshal_job_c1, of 100 101 conn0]
  obtain res where "published (handleJobs_msg 100 101 (JObject
       [(''uuid'', JString ''j1''), (''worker_id'', JString ''w1''),
        (''name'', JString ''upload_file''),
        (''input_data'', JObject [(''a'', JNumber 1)]),
        (''output_data'', JNull), (''error'', JString []),
        (''start_at'', JNumber 0), (''done_at'', JNumber 0),
        (''status'', JString ''pending''), (''cycle_uuid'', JString ''c1''),
        (''session_id'', JString ''alice''), (''Cycle'', Marshal_Cycle zero_Cycle),
        (''Worker'', Marshal_Worker zero_Worker)]) conn0) = [(''dispatcher.job.result'', res)]"
    and "Unmarshal_Job res =
             Inr (job_c1\<lparr>Job_InputData := Job_InputData job_c1, Job_OutputData := RDoc processed,
                    Job_StartAt := 100, Job_DoneAt := 101, Job_Status := ''completed'',
                    Job_CycleUUID := [], Job_SessionID := [],
                    Job_Cycle := Job_Cycle job_c1, Job_Worker := Job_Worker job_c1\<rparr>)"
    by (auto simp: c r(1) t r(2) [symmetric] z [symmetric])
  moreover have "Job_CycleUUID job_c1 = ''c1'' \<and> Job_SessionID job_c1 = ''alice''"
    by (simp add: job_c1_def)
  ultimately show ?thesis using marshal_job_c1 by auto
qed

section \<open>Properties of the job service\<close>

lemma int_add_small:
  "0 \<le> a \<Longrightarrow> 0 \<le> b \<Longrightarrow> a + b < 2 ^ 63 \<Longrightarrow> int_add a b = a + b"
  unfolding int_add_def by (rule signed_take_bit_int_eq_self) simp_all

lemma length_actions: "length actions = 9"
  by (simp add: actions_def)

lemma generate_loop_eq:
  "generate_loop ids session is (js, k) =
     (js @ map (\<lambda>m. (session_job (ids (k + m)) [] (UserID session) (is ! m))
                      \<lparr>Job_SessionID := []\<rparr>) [0..<length is],
      k + length is)"
proof (induction "is" arbitrary: js k)
  case Nil
  then show ?case by simp
next
  case (Cons i "is")
  show ?case
    by (simp add: Cons.IH Marshal_inputData_def length_actions session_job_def zero_Job_def
        map_upt_Suc Let_def del: upt_Suc)
qed

lemma generateSessionJobs_eq:
  assumes "Cycle_Strategy cycle = Some st"
  shows "generateSessionJobs ids k cycle session =
     Inr (map (\<lambda>i. (session_job (ids (k + i)) [] (UserID session) i)\<lparr>Job_SessionID := []\<rparr>)
            [0..<nat (int_add (MaxFiles st) (MaxWorkspaces st))],
          None, k + nat (int_add (MaxFiles st) (MaxWorkspaces st)))"
proof -
  have "map (\<lambda>m. (session_job (ids (k + m)) [] (UserID session) ([0..<t] ! m))\<lparr>Job_SessionID := []\<rparr>) [0..<t]
      = map (\<lambda>i. (session_job (ids (k + i)) [] (UserID session) i)\<lparr>Job_SessionID := []\<rparr>) [0..<t]" for t
    by (rule map_cong) simp_all
  then show ?thesis
    using assms by (simp add: generateSessionJobs_def generate_loop_eq Let_def)
qed

lemma save_associations_zero:
  "Job_Cycle j = zero_Cycle \<Longrightarrow> Job_Worker j = zero_Worker \<Longrightarrow>
   save_associations s j = (s, j) \<and> job_row j = j"
  by (simp add: save_associations_def job_row_def)

lemma save_jobs_eq:
  assumes "db_err s = None"
    and "distinct (map Job_UUID js)"
    and "set (map Job_UUID js) \<inter> set (map Job_UUID (jobs s)) = {}"
    and "\<forall>j\<in>set js. Job_Cycle j = zero_Cycle \<and> Job_Worker j = zero_Worker"
  shows "save_jobs cycle session js s =
     s\<lparr>jobs := jobs s @ map (\<lambda>j. j\<lparr>Job_CycleUUID := Cycle_UUID cycle,
                                        Job_SessionID := UserID session\<rparr>) js\<rparr>"
  using assms
proof (induction js arbitrary: s)
  case Nil
  then show ?case by simp
next
  case (Cons j js)
  let ?j' = "j\<lparr>Job_CycleUUID := Cycle_UUID cycle, Job_SessionID := UserID session\<rparr>"
  let ?s' = "s\<lparr>jobs := jobs s @ [?j']\<rparr>"
  have z: "Job_Cycle ?j' = zero_Cycle" "Job_Worker ?j' = zero_Worker"
    using Cons.prems(4) by simp_all
  have c: "CreateJob s ?j' = Inr (?s', ?j')"
    using Cons.prems(1,2,3) save_associations_zero [OF z, of s]
    by (auto simp: CreateJob_def)
  have "save_jobs cycle session js ?s' =
     ?s'\<lparr>jobs := jobs ?s' @ map (\<lambda>j. j\<lparr>Job_CycleUUID := Cycle_UUID cycle,
                                        Job_SessionID := UserID session\<rparr>) js\<rparr>"
    using Cons.prems by (intro Cons.IH) auto
  then show ?case by (simp add: c)
qed

lemma fetch_users_Received: "fetch_users (map Received users) acc = Inr (acc @ users)"
  by (induction users arbitrary: acc) simp_all


lemma length_expected_jobs: "length (expected_jobs ids c t users k) = length users * t"
  by (induction users arbitrary: k) simp_all

lemma nth_expected_jobs:
  "u < length users \<Longrightarrow> i < t \<Longrightarrow>
   expected_jobs ids c t users k ! (u * t + i)
     = session_job (ids (k + u * t + i)) c (User_UserName (users ! u)) i"
proof (induction users arbitrary: k u)
  case Nil
  then show ?case by simp
next
  case (Cons user users)
  show ?case
  proof (cases u)
    case 0
    with Cons.prems show ?thesis by (simp add: nth_append)
  next
    case (Suc v)
    with Cons.prems have v: "v < length users" by simp
    have "expected_jobs ids c t (user # users) k ! (u * t + i)
        = expected_jobs ids c t users (k + t) ! (v * t + i)"
      using Suc by (simp add: nth_append)
    also have "\<dots> = session_job (ids (k + t + v * t + i)) c (User_UserName (users ! v)) i"
      using Cons.IH [OF v Cons.prems(2)] .
    finally show ?thesis using Suc by (simp add: add.assoc)
  qed
qed

lemma sessions_loop_eq:
  assumes "Cycle_Strategy cycle = Some st"
    and "t = nat (int_add (MaxFiles st) (MaxWorkspaces st))"
    and "inj ids"
    and "db_err s = None"
    and "\<forall>m\<ge>k. ids m \<notin> set (map Job_UUID (jobs s))"
  shows "sessions_loop ids cycle users (s, k) =
     (None, s\<lparr>jobs := jobs s @ expected_jobs ids (Cycle_UUID cycle) t users k\<rparr>,
      k + length users * t)"
  using assms(4,5)
proof (induction users arbitrary: s k)
  case Nil
  then show ?case by simp
next
  case (Cons user users)
  let ?session = "\<lparr>UserID = User_UserName user\<rparr>"
  let ?js = "map (\<lambda>i. (session_job (ids (k + i)) [] (User_UserName user) i)\<lparr>Job_SessionID := []\<rparr>) [0..<t]"
  let ?block = "map (\<lambda>i. session_job (ids (k + i)) (Cycle_UUID cycle) (User_UserName user) i) [0..<t]"
  let ?s' = "s\<lparr>jobs := jobs s @ ?block\<rparr>"
  have g: "generateSessionJobs ids k cycle ?session = Inr (?js, None, k + t)"
    using generateSessionJobs_eq [OF assms(1)] assms(2) by simp
  have u: "map Job_UUID ?js = map (\<lambda>i. ids (k + i)) [0..<t]"
    by (simp add: session_job_def)
  have d: "distinct (map Job_UUID ?js)"
  proof -
    have "inj_on (\<lambda>i. ids (k + i)) (set [0..<t])"
      by (rule inj_onI) (use assms(3) in \<open>auto dest: injD\<close>)
    then show ?thesis unfolding u by (simp add: distinct_map)
  qed
  have i: "set (map Job_UUID ?js) \<inter> set (map Job_UUID (jobs s)) = {}"
  proof -
    have "ids (k + x) \<notin> set (map Job_UUID (jobs s))" for x
      using Cons.prems(2) [rule_format, of "k + x"] by simp
    then show ?thesis unfolding u by auto
  qed
  have st: "map (\<lambda>j. j\<lparr>Job_CycleUUID := Cycle_UUID cycle, Job_SessionID := UserID ?session\<rparr>) ?js = ?block"
    by (simp add: session_job_def)
  have z: "\<forall>j\<in>set ?js. Job_Cycle j = zero_Cycle \<and> Job_Worker j = zero_Worker"
    by (simp add: session_job_def)
  have sv: "save_jobs cycle ?session ?js s = ?s'"
    using save_jobs_eq [OF Cons.prems(1) d i z, of cycle ?session] unfolding st .
  have e: "db_err ?s' = None" using Cons.prems(1) by simp
  have f: "\<forall>m\<ge>k + t. ids m \<notin> set (map Job_UUID (jobs ?s'))"
  proof (intro allI impI)
    fix m assume m: "k + t \<le> m"
    have "ids m \<notin> set (map Job_UUID (jobs s))"
      using Cons.prems(2) [rule_format, of m] m by simp
    moreover have "ids m \<notin> set (map Job_UUID ?block)"
    proof
      assume "ids m \<in> set (map Job_UUID ?block)"
      then obtain j where "j < t" "ids m = ids (k + j)"
        by (auto simp: session_job_def)
      with assms(3) have "m = k + j" by (auto dest: injD)
      with m \<open>j < t\<close> show False by simp
    qed
    ultimately show "ids m \<notin> set (map Job_UUID (jobs ?s'))" by simp
  qed
  have "sessions_loop ids cycle (user # users) (s, k) = sessions_loop ids cycle users (?s', k + t)"
    by (simp add: g sv del: generateSessionJobs_def)
  also have "\<dots> = (None, ?s'\<lparr>jobs := jobs ?s' @ expected_jobs ids (Cycle_UUID cycle) t users (k + t)\<rparr>,
      k + t + length users * t)"
    by (rule Cons.IH [OF e f])
  finally show ?case by (simp add: add.assoc)
qed


text \<open>
  C6.  Let the strategy's three counts be non-negative with
  \<open>max_files + max_workspaces\<close> in the range of \<open>int\<close>, let each of the first
  \<open>max_users\<close> selects receive a user (\<open>users\<close>, in order), and let no store
  error occur: the database answers, and the uuid source never repeats and
  returns no key already in the store.  Then \<open>StartCycle\<close> returns nil and has
  appended exactly \<open>max_users * (max_files + max_workspaces)\<close> rows to the job
  table; the row of step \<open>i\<close> of the session of user \<open>u\<close> is \<open>session_job\<close>:
  name \<open>actions[i mod 9]\<close>, input the object \<open>{action, user_id}\<close>, status
  "pending", the next uuid of the source, the cycle's uuid, and the user's name
  as session id.
\<close>

theorem StartCycle_persists_jobs:
  assumes "Cycle_Strategy cycle = Some st"
    and "0 \<le> MaxUsers st" and "0 \<le> MaxFiles st" and "0 \<le> MaxWorkspaces st"
    and "MaxFiles st + MaxWorkspaces st < 2 ^ 63"
    and "map selects [0..<nat (MaxUsers st)] = map Received users"
    and "db_err s = None"
    and "inj ids"
    and "\<forall>m. ids m \<notin> set (map Job_UUID (jobs s))"
    and "ids k \<notin> set (map Cycle_UUID (cycles s))"
  shows "\<exists>s'. StartCycle ids k now selects s cycle =
            (None, s', Suc k + length users * nat (MaxFiles st + MaxWorkspaces st))
     \<and> int (length (jobs s')) =
         int (length (jobs s)) + MaxUsers st * (MaxFiles st + MaxWorkspaces st)
     \<and> take (length (jobs s)) (jobs s') = jobs s
     \<and> (\<forall>u<length users. \<forall>i<nat (MaxFiles st + MaxWorkspaces st).
          jobs s' ! (length (jobs s) + u * nat (MaxFiles st + MaxWorkspaces st) + i) =
            session_job (ids (Suc k + u * nat (MaxFiles st + MaxWorkspaces st) + i)) (ids k)
              (User_UserName (users ! u)) i)
     \<and> cycles s' = cycles s @ [cycle\<lparr>Cycle_UUID := ids k, Cycle_StartedAt := now,
                                       Cycle_Status := ''running''\<rparr>]"
proof -
  let ?t = "nat (MaxFiles st + MaxWorkspaces st)"
  let ?cycle1 = "cycle\<lparr>Cycle_UUID := ids k, Cycle_StartedAt := now, Cycle_Status := ''running''\<rparr>"
  let ?s1 = "s\<lparr>cycles := cycles s @ [?cycle1]\<rparr>"
  let ?s' = "?s1\<lparr>jobs := jobs ?s1 @ expected_jobs ids (Cycle_UUID ?cycle1) ?t users (Suc k)\<rparr>"
  have t: "?t = nat (int_add (MaxFiles st) (MaxWorkspaces st))"
    using int_add_small [OF assms(3,4,5)] by simp
  have c: "CreateCycle s ?cycle1 = Inr ?s1"
    using assms(7,10) by (simp add: CreateCycle_def)
  have st1: "Cycle_Strategy ?cycle1 = Some st" using assms(1) by simp
  have f: "fetch_users (map selects [0..<nat (MaxUsers st)]) [] = Inr users"
    unfolding assms(6) by (simp add: fetch_users_Received)
  have e: "db_err ?s1 = None" using assms(7) by simp
  have fr: "\<forall>m\<ge>Suc k. ids m \<notin> set (map Job_UUID (jobs ?s1))"
    using assms(9) by simp
  have l: "sessions_loop ids ?cycle1 users (?s1, Suc k) = (None, ?s', Suc k + length users * ?t)"
    by (rule sessions_loop_eq [OF st1 t assms(8) e fr])
  have run: "StartCycle ids k now selects s cycle = (None, ?s', Suc k + length users * ?t)"
    unfolding StartCycle_def Let_def c using assms(1) by (simp add: f l)
  have n: "length users = nat (MaxUsers st)"
    using arg_cong [OF assms(6), of length] by simp
  have j: "jobs ?s' = jobs s @ expected_jobs ids (ids k) ?t users (Suc k)" by simp
  have len: "int (length (jobs ?s')) =
         int (length (jobs s)) + MaxUsers st * (MaxFiles st + MaxWorkspaces st)"
    using assms(2,3,4) unfolding j by (simp add: length_expected_jobs n)
  have tk: "take (length (jobs s)) (jobs ?s') = jobs s" unfolding j by simp
  have nth: "jobs ?s' ! (length (jobs s) + u * ?t + i) =
            session_job (ids (Suc k + u * ?t + i)) (ids k) (User_UserName (users ! u)) i"
    if "u < length users" "i < ?t" for u i
  proof -
    have "jobs ?s' ! (length (jobs s) + u * ?t + i) =
        expected_jobs ids (ids k) ?t users (Suc k) ! (u * ?t + i)"
      unfolding j by (simp add: nth_append add.assoc)
    then show ?thesis using nth_expected_jobs [OF that] by simp
  qed
  have cy: "cycles ?s' = cycles s @ [?cycle1]" by simp
  from run len tk nth cy show ?thesis by blast
qed

lemma inj_ids0: "inj ids0"
proof (rule injI)
  fix x y assume "ids0 x = ids0 y"
  then have "length (ids0 x) = length (ids0 y)" by simp
  then show "x = y" by (simp add: ids0_def)
qed

theorem StartCycle_persists_jobs_witness:
  "\<exists>s'. StartCycle ids0 0 1000 (\<lambda>i. Received user_alice) empty_store template = (None, s', 3)
     \<and> length (jobs s') = 2
     \<and> jobs s' ! 0 = session_job ''uu'' ''u'' ''alice'' 0
     \<and> jobs s' ! 1 = session_job ''uuu'' ''u'' ''alice'' 1
     \<and> Job_Name (jobs s' ! 0) = ''create_user'' \<and> Job_Name (jobs s' ! 1) = ''update_user''
     \<and> cycles s' = [template\<lparr>Cycle_UUID := ''u'', Cycle_StartedAt := 1000,
                                Cycle_Status := ''running''\<rparr>]"
proof -
  have h1: "Cycle_Strategy template = Some strategy_1_1_1" by (simp add: template_def)
  have h2: "0 \<le> MaxUsers strategy_1_1_1" by (simp add: strategy_1_1_1_def)
  have h3: "0 \<le> MaxFiles strategy_1_1_1" by (simp add: strategy_1_1_1_def)
  have h4: "0 \<le> MaxWorkspaces strategy_1_1_1" by (simp add: strategy_1_1_1_def)
  have h5: "MaxFiles strategy_1_1_1 + MaxWorkspaces strategy_1_1_1 < 2 ^ 63"
    by (simp add: strategy_1_1_1_def)
  have h6: "map (\<lambda>i. Received user_alice) [0..<nat (MaxUsers strategy_1_1_1)] = map Received [user_alice]"
    by (simp add: strategy_1_1_1_def)
  have h7: "db_err empty_store = None" by (simp add: empty_store_def)
  have h9: "\<forall>m. ids0 m \<notin> set (map Job_UUID (jobs empty_store))" by (simp add: empty_store_def)
  have h10: "ids0 0 \<notin> set (map Cycle_UUID (cycles empty_store))" by (simp add: empty_store_def)
  have t: "nat (MaxFiles strategy_1_1_1 + MaxWorkspaces strategy_1_1_1) = 2"
    by (simp add: strategy_1_1_1_def)
  have i: "ids0 0 = ''u''" "ids0 1 = ''uu''" "ids0 2 = ''uuu''"
    by (simp_all add: ids0_def numeral_2_eq_2)
  from StartCycle_persists_jobs [OF h1 h2 h3 h4 h5 h6 h7 inj_ids0 h9 h10, of 1000]
  obtain s' where r: "StartCycle ids0 0 1000 (\<lambda>i. Received user_alice) empty_store template = (None, s', 3)"
    and l: "int (length (jobs s')) = 2"
    and n: "\<forall>u<1. \<forall>i<2. jobs s' ! (u * 2 + i) =
            session_job (ids0 (Suc (u * 2 + i))) ''u'' (User_UserName ([user_alice] ! u)) i"
    and c: "cycles s' = [template\<lparr>Cycle_UUID := ''u'', Cycle_StartedAt := 1000,
                                Cycle_Status := ''running''\<rparr>]"
    unfolding t by (auto simp: empty_store_def strategy_1_1_1_def i)
  have n0: "jobs s' ! 0 = session_job ''uu'' ''u'' ''alice'' 0"
    using n [rule_format, of 0 0] by (simp add: ids0_def user_alice_def)
  have n1: "jobs s' ! 1 = session_job ''uuu'' ''u'' ''alice'' 1"
    using n [rule_format, of 0 1] by (simp add: ids0_def user_alice_def)
  have "Job_Name (jobs s' ! 0) = ''create_user''" "Job_Name (jobs s' ! 1) = ''update_user''"
    unfolding n0 n1 by (simp_all add: session_job_def actions_def)
  with r l n0 n1 c show ?thesis by auto
qed

lemma GetCycle_mem:
  "GetCycle s uuid = Inr c \<Longrightarrow> c \<in> set (cycles s) \<and> Cycle_UUID c = uuid \<and> db_err s = None"
  by (auto simp: GetCycle_def find_Some_iff split: option.splits)

lemma UpdateCycle_found:
  assumes "GetCycle s uuid = Inr c"
    and "UpdateCycle s (c\<lparr>Cycle_Status := status, Cycle_DoneAt := t\<rparr>) = Inr s'"
  shows "s' = s\<lparr>cycles := save_cycle (c\<lparr>Cycle_Status := status, Cycle_DoneAt := t\<rparr>) (cycles s)\<rparr>"
proof (cases "Cycle_UUID c = []")
  case True
  from GetCycle_mem [OF assms(1)] have "Cycle_UUID c \<in> set (map Cycle_UUID (cycles s))"
    and "db_err s = None" by auto
  with assms(2) True show ?thesis by (simp add: UpdateCycle_def CreateCycle_def)
next
  case False
  with assms(2) show ?thesis by (auto simp: UpdateCycle_def split: option.splits)
qed

text \<open>
  \<open>checkCycleCompletion\<close> changes the store only when no job, of whatever
  cycle, has status "pending" or "dispatched"; the change is that the row of the
  given cycle gets status "completed" and \<open>done_at = now\<close>.  No other status is
  looked at.
\<close>

lemma checkCycleCompletion_cases:
  assumes "checkCycleCompletion now cycleUUID s = (err, s')"
  shows "s' = s \<or>
         (err = None \<and> db_err s = None
          \<and> filter (\<lambda>j. Job_Status j = ''pending'') (jobs s) = []
          \<and> filter (\<lambda>j. Job_Status j = ''dispatched'') (jobs s) = []
          \<and> (\<exists>c. GetCycle s cycleUUID = Inr c
                \<and> s' = s\<lparr>cycles := save_cycle (c\<lparr>Cycle_Status := ''completed'',
                                                      Cycle_DoneAt := now\<rparr>) (cycles s)\<rparr>))"
proof (cases "s' = s")
  case True
  then show ?thesis by simp
next
  case False
  with assms obtain c where p: "filter (\<lambda>j. Job_Status j = ''pending'') (jobs s) = []"
    and q: "filter (\<lambda>j. Job_Status j = ''dispatched'') (jobs s) = []"
    and d: "db_err s = None"
    and g: "GetCycle s cycleUUID = Inr c"
    and u: "UpdateCycle s (c\<lparr>Cycle_Status := ''completed'', Cycle_DoneAt := now\<rparr>) = Inr s'"
    and e: "err = None"
    by (auto simp: checkCycleCompletion_def GetJobsByStatus_def Let_def
        split: sum.splits option.splits if_splits)
  from UpdateCycle_found [OF g u] p q d g e show ?thesis by blast
qed




text \<open>
  Two more ways in which a cycle row ends with \<open>done_at\<close> set and status
  "running": a result payload whose \<open>Cycle\<close> member holds such a row (saving the
  job inserts it), and a template that \<open>StartCycle\<close> is given with \<open>done_at\<close>
  set (it is persisted as given).
\<close>

lemma decode_report_with_cycle:
  "Unmarshal_Job report_with_cycle =
     Inr (zero_Job\<lparr>Job_UUID := ''j9'', Job_Status := ''completed'', Job_Cycle := cycle_x\<rparr>)"
  by (simp add: Unmarshal_Job_def report_with_cycle_def zero_Job_def cycle_x_def zero_Cycle_def
      as_Cycle_def as_Worker_def as_Strategy_def lookup_key_def bindE_def)

lemma result_with_cycle_member_inserts_row:
  "handle_result 2000 report_with_cycle store_one_job =
     store_one_job\<lparr>jobs := jobs store_one_job @
                        [zero_Job\<lparr>Job_UUID := ''j9'', Job_Status := ''completed'',
                                  Job_CycleUUID := ''x''\<rparr>],
                    cycles := [cycle_one, cycle_x]\<rparr>
   \<and> Cycle_DoneAt cycle_x = 5 \<and> Cycle_Status cycle_x = ''running''"
proof -
  have x: "cycle_x \<noteq> zero_Cycle" "Cycle_UUID cycle_x = ''x''"
    "Cycle_DoneAt cycle_x = 5" "Cycle_Status cycle_x = ''running''"
    by (simp_all add: cycle_x_def zero_Cycle_def)
  have c: "Cycle_UUID cycle_one = ''u''" by (simp add: cycle_one_def)
  have u: "UpdateJob store_one_job
        (zero_Job\<lparr>Job_UUID := ''j9'', Job_Status := ''completed'', Job_Cycle := cycle_x\<rparr>) =
      Inr (store_one_job\<lparr>jobs := jobs store_one_job @
                        [zero_Job\<lparr>Job_UUID := ''j9'', Job_Status := ''completed'',
                                  Job_CycleUUID := ''x''\<rparr>],
                    cycles := [cycle_one, cycle_x]\<rparr>,
           zero_Job\<lparr>Job_UUID := ''j9'', Job_Status := ''completed'', Job_Cycle := cycle_x,
                    Job_CycleUUID := ''x''\<rparr>)"
    by (simp add: UpdateJob_def save_associations_def insert_cycle_def job_row_def
        store_one_job_def session_job_def zero_Job_def x c)
  have k: "checkCycleCompletion 2000 ''x''
        (store_one_job\<lparr>jobs := jobs store_one_job @
                        [zero_Job\<lparr>Job_UUID := ''j9'', Job_Status := ''completed'',
                                  Job_CycleUUID := ''x''\<rparr>],
                    cycles := [cycle_one, cycle_x]\<rparr>) =
      (None, store_one_job\<lparr>jobs := jobs store_one_job @
                        [zero_Job\<lparr>Job_UUID := ''j9'', Job_Status := ''completed'',
                                  Job_CycleUUID := ''x''\<rparr>],
                    cycles := [cycle_one, cycle_x]\<rparr>)"
    by (simp add: checkCycleCompletion_def GetJobsByStatus_def store_one_job_def
        session_job_def zero_Job_def)
  show ?thesis
    by (simp add: handle_result_def decode_report_with_cycle u k x)
qed

lemma StartCycle_keeps_done_at:
  "\<exists>s' k'. StartCycle ids0 0 1000 (\<lambda>i. Closed) empty_store (template_one\<lparr>Cycle_DoneAt := 5\<rparr>) =
       (None, s', k')
     \<and> cycles s' = [cycle_one\<lparr>Cycle_DoneAt := 5\<rparr>]
     \<and> Cycle_Status cycle_one = ''running''"
  by (simp add: StartCycle_def CreateCycle_def empty_store_def template_one_def template_def
      cycle_one_def ids0_def)

end
